theory Spec2Isabelle
  imports Main "HOL-Library.Word" "HOL-Library.Sublist"
begin

section \<open>Workflow model (package dsl)\<close>

text \<open>
  Go strings are byte sequences, modelled as \<open>string\<close>.  The three characters that an
  Isabelle string literal cannot hold are named here: the line feed, the single quote and
  the UTF-8 encoding of the check mark U+2713 used by the completion markers.
\<close>

definition nl :: string where
  "nl = [CHR 0x0A]"

definition sq :: string where
  "sq = [CHR 0x27]"

definition check_mark :: string where
  "check_mark = [CHR 0xE2, CHR 0x9C, CHR 0x93]"

text \<open>
  \<open>StepType\<close> is a string type in the source (the test suite builds
  \<open>dsl.StepType("unknown")\<close>), so any tag can reach the validator and the engine.
\<close>

type_synonym StepType = string

text \<open>
  Modelled from the spec: the declarations of the constants \<open>StepTypeExec\<close> and
  \<open>StepTypeSleep\<close> are not among the source files; the document schema of the spec
  gives the two tags as \<open>exec\<close> and \<open>sleep\<close>.
\<close>

definition StepTypeExec :: StepType where
  "StepTypeExec = ''exec''"

definition StepTypeSleep :: StepType where
  "StepTypeSleep = ''sleep''"

text \<open>
  Modelled from the spec: the struct declarations of \<open>Step\<close>, \<open>Stage\<close> and
  \<open>Workflow\<close> are not among the source files; the fields are those the validator, the
  engine and the tests read.  A step is one struct with all fields, whatever its tag.
\<close>

record Step =
  Name :: string
  Type :: StepType
  Run :: "string list"
  Seconds :: int

record Stage =
  Name :: string
  Steps :: "Step list"

record Workflow =
  Name :: string
  Description :: string
  Stages :: "Stage list"

subsection \<open>Errors and formatting\<close>

text \<open>
  A Go error is a message with an optional wrapped cause: \<open>errors.New\<close> and
  \<open>fmt.Errorf\<close> without \<open>%w\<close> give \<open>New\<close>, \<open>fmt.Errorf\<close> with \<open>%w\<close> gives
  \<open>Wrap\<close>, whose message already contains the message of the cause.
\<close>

datatype error = New string | Wrap string error

fun Error :: "error \<Rightarrow> string" where
  "Error (New m) = m"
| "Error (Wrap m c) = m"

text \<open>The innermost error of a chain of wraps, as repeated \<open>errors.Unwrap\<close> finds it.\<close>

fun root_cause :: "error \<Rightarrow> error" where
  "root_cause (New m) = New m"
| "root_cause (Wrap m c) = root_cause c"

text \<open>The verb \<open>%d\<close>: decimal digits, with a minus sign for a negative number.\<close>

fun digits10 :: "nat \<Rightarrow> string" where
  "digits10 n =
     (if n < 10 then [''0123456789'' ! n]
      else digits10 (n div 10) @ [''0123456789'' ! (n mod 10)])"

declare digits10.simps [simp del]

definition fmt_d :: "int \<Rightarrow> string" where
  "fmt_d i = (if i < 0 then CHR ''-'' # digits10 (nat (- i)) else digits10 (nat i))"

text \<open>The verb \<open>%v\<close> on a slice of strings: the elements between brackets, separated by spaces.\<close>

fun join_sp :: "string list \<Rightarrow> string" where
  "join_sp [] = []"
| "join_sp [x] = x"
| "join_sp (x # y # ys) = x @ '' '' @ join_sp (y # ys)"

definition fmt_v :: "string list \<Rightarrow> string" where
  "fmt_v xs = ''['' @ join_sp xs @ '']''"

subsection \<open>Validation (validation.go)\<close>

definition Step_Validate :: "Step \<Rightarrow> error option" where
  "Step_Validate s =
     (if Step.Name s = [] then Some (New ''step name is required'')
      else if Type s = StepTypeExec then
        (if length (Step.Run s) = 0 then Some (New (''exec step requires '' @ sq @ ''run'' @ sq @ '' command''))
         else None)
      else if Type s = StepTypeSleep then
        (if Seconds s \<le> 0
         then Some (New (''sleep step requires positive '' @ sq @ ''seconds'' @ sq @ '' value''))
         else None)
      else Some (New (''unknown step type: '' @ Type s)))"

text \<open>The loop of \<open>Stage.Validate\<close> over the steps, from index \<open>i\<close> on.\<close>

fun validate_steps :: "nat \<Rightarrow> Step list \<Rightarrow> error option" where
  "validate_steps i [] = None"
| "validate_steps i (step # rest) =
     (case Step_Validate step of
        Some err \<Rightarrow>
          Some (Wrap (''step '' @ fmt_d (int i) @ '' ('' @ Step.Name step @ ''): '' @ Error err) err)
      | None \<Rightarrow> validate_steps (Suc i) rest)"

definition Stage_Validate :: "Stage \<Rightarrow> error option" where
  "Stage_Validate s =
     (if Stage.Name s = [] then Some (New ''stage name is required'')
      else if length (Steps s) = 0 then Some (New ''stage must have at least one step'')
      else validate_steps 0 (Steps s))"

text \<open>The loop of \<open>Workflow.Validate\<close> over the stages, from index \<open>i\<close> on.\<close>

fun validate_stages :: "nat \<Rightarrow> Stage list \<Rightarrow> error option" where
  "validate_stages i [] = None"
| "validate_stages i (stage # rest) =
     (case Stage_Validate stage of
        Some err \<Rightarrow>
          Some (Wrap (''stage '' @ fmt_d (int i) @ '' ('' @ Stage.Name stage @ ''): '' @ Error err) err)
      | None \<Rightarrow> validate_stages (Suc i) rest)"

definition Workflow_Validate :: "Workflow \<Rightarrow> error option" where
  "Workflow_Validate w =
     (if Workflow.Name w = [] then Some (New ''workflow name is required'')
      else if length (Stages w) = 0 then Some (New ''workflow must have at least one stage'')
      else validate_stages 0 (Stages w))"

section \<open>Execution engine (package runner)\<close>

text \<open>
  \<open>time.Duration\<close> is a signed 64-bit count of nanoseconds and \<open>time.Second\<close> is
  \<open>1000000000\<close>; the product in \<open>executeStep\<close> wraps around as Go's does.
\<close>

type_synonym Duration = "64 word"

definition Second :: Duration where
  "Second = 1000000000"

text \<open>
  The runner holds its source path and four capabilities.  They act on the world outside
  the engine, of any type \<open>'w\<close>: each takes the world and returns it changed.  The loader
  follows the contract of the spec (a workflow or an error); \<open>Out\<close> is the \<open>Write\<close> of the
  sink, whose result \<open>fmt.Fprintf\<close> returns and the engine discards.
\<close>

record 'w Runner =
  path :: string
  LoadWorkflow :: "string \<Rightarrow> 'w \<Rightarrow> (error + Workflow) \<times> 'w"
  RunCmd :: "string list \<Rightarrow> 'w \<Rightarrow> error option \<times> 'w"
  Sleep :: "Duration \<Rightarrow> 'w \<Rightarrow> 'w"
  Out :: "string \<Rightarrow> 'w \<Rightarrow> 'w"

definition executeStep :: "'w Runner \<Rightarrow> Step \<Rightarrow> 'w \<Rightarrow> error option \<times> 'w" where
  "executeStep r step w =
     (if Type step = StepTypeExec then
        (case RunCmd r (Step.Run step) w of
           (Some err, w') \<Rightarrow> (Some (Wrap (''command execution failed: '' @ Error err) err), w')
         | (None, w') \<Rightarrow> (None, w'))
      else if Type step = StepTypeSleep then
        (let w1 = Out r (''  Sleeping for '' @ fmt_d (Seconds step) @ '' seconds...'' @ nl) w
         in (None, Sleep r (word_of_int (Seconds step) * Second) w1))
      else (Some (New (''unknown step type: '' @ Type step)), w))"

text \<open>The inner loop of \<open>Run\<close>: the steps of stage number \<open>stageIdx\<close>, from index \<open>stepIdx\<close> on.\<close>

fun run_steps :: "'w Runner \<Rightarrow> nat \<Rightarrow> Stage \<Rightarrow> nat \<Rightarrow> Step list \<Rightarrow> 'w \<Rightarrow> error option \<times> 'w" where
  "run_steps r stageIdx stage stepIdx [] w = (None, w)"
| "run_steps r stageIdx stage stepIdx (step # rest) w =
     (let w1 = Out r (''STEP '' @ fmt_d (int stageIdx + 1) @ ''.'' @ fmt_d (int stepIdx + 1) @ '': ''
                      @ Step.Name step @ '' ('' @ Type step @ '')'' @ nl) w
      in case executeStep r step w1 of
           (Some err, w2) \<Rightarrow>
             (Some (Wrap (''stage '' @ sq @ Stage.Name stage @ sq @ '', step '' @ sq @ Step.Name step @ sq
                          @ '': '' @ Error err) err), w2)
         | (None, w2) \<Rightarrow> run_steps r stageIdx stage (Suc stepIdx) rest w2)"

text \<open>The outer loop of \<open>Run\<close>: the stages from index \<open>stageIdx\<close> on.\<close>

fun run_stages :: "'w Runner \<Rightarrow> nat \<Rightarrow> Stage list \<Rightarrow> 'w \<Rightarrow> error option \<times> 'w" where
  "run_stages r stageIdx [] w = (None, w)"
| "run_stages r stageIdx (stage # rest) w =
     (let w1 = Out r (nl @ ''=== STAGE '' @ fmt_d (int stageIdx + 1) @ '': '' @ Stage.Name stage
                      @ '' ==='' @ nl) w
      in case run_steps r stageIdx stage 0 (Steps stage) w1 of
           (Some err, w2) \<Rightarrow> (Some err, w2)
         | (None, w2) \<Rightarrow>
             run_stages r (Suc stageIdx) rest
               (Out r (''=== STAGE '' @ fmt_d (int stageIdx + 1) @ '' COMPLETED ==='' @ nl) w2))"

definition Runner_Run :: "'w Runner \<Rightarrow> 'w \<Rightarrow> error option \<times> 'w" where
  "Runner_Run r w =
     (let w1 = Out r (''Executing workflow: '' @ path r @ nl) w
      in case LoadWorkflow r (path r) w1 of
           (Inl err, w2) \<Rightarrow> (Some err, w2)
         | (Inr flow, w2) \<Rightarrow>
             (case run_stages r 0 (Stages flow) w2 of
                (Some err, w3) \<Rightarrow> (Some err, w3)
              | (None, w3) \<Rightarrow>
                  (None, Out r (nl @ check_mark @ '' Workflow execution completed.'' @ nl) w3)))"

text \<open>The inner loop of \<open>DryRun\<close>; its switch has the two known tags and no default branch.\<close>

fun dry_steps :: "'w Runner \<Rightarrow> nat \<Rightarrow> nat \<Rightarrow> Step list \<Rightarrow> 'w \<Rightarrow> 'w" where
  "dry_steps r stageIdx stepIdx [] w = w"
| "dry_steps r stageIdx stepIdx (step # rest) w =
     (let w1 = Out r (''[DRY-RUN] STEP '' @ fmt_d (int stageIdx + 1) @ ''.'' @ fmt_d (int stepIdx + 1)
                      @ '': '' @ Step.Name step @ '' ('' @ Type step @ '')'' @ nl) w;
          w2 = (if Type step = StepTypeExec then
                  Out r (''[DRY-RUN]   Would execute command: '' @ fmt_v (Step.Run step) @ nl) w1
                else if Type step = StepTypeSleep then
                  Out r (''[DRY-RUN]   Would sleep for '' @ fmt_d (Seconds step) @ '' seconds'' @ nl) w1
                else w1)
      in dry_steps r stageIdx (Suc stepIdx) rest w2)"

fun dry_stages :: "'w Runner \<Rightarrow> nat \<Rightarrow> Stage list \<Rightarrow> 'w \<Rightarrow> 'w" where
  "dry_stages r stageIdx [] w = w"
| "dry_stages r stageIdx (stage # rest) w =
     (let w1 = Out r (nl @ ''[DRY-RUN] === STAGE '' @ fmt_d (int stageIdx + 1) @ '': ''
                      @ Stage.Name stage @ '' ==='' @ nl) w;
          w2 = dry_steps r stageIdx 0 (Steps stage) w1
      in dry_stages r (Suc stageIdx) rest
           (Out r (''[DRY-RUN] === STAGE '' @ fmt_d (int stageIdx + 1) @ '' COMPLETED ==='' @ nl) w2))"

definition Runner_DryRun :: "'w Runner \<Rightarrow> 'w \<Rightarrow> error option \<times> 'w" where
  "Runner_DryRun r w =
     (let w1 = Out r (''[DRY-RUN] Would execute workflow: '' @ path r @ nl) w
      in case LoadWorkflow r (path r) w1 of
           (Inl err, w2) \<Rightarrow> (Some err, w2)
         | (Inr flow, w2) \<Rightarrow>
             (None, Out r (nl @ ''[DRY-RUN] '' @ check_mark @ '' Workflow simulation completed.'' @ nl)
                      (dry_stages r 0 (Stages flow) w2)))"

subsection \<open>Observing a run\<close>

text \<open>
  To speak about what a run does to the outside, every capability of a runner is wrapped
  so that it appends its call to a log before doing what it did, the way the recording
  doubles of the test suite do.  The engine under observation is the same \<open>Runner_Run\<close>
  and \<open>Runner_DryRun\<close>, on the world paired with the log.
\<close>

datatype event = Wrote string | Loaded string | Ran "string list" | Slept Duration

definition observed :: "'w Runner \<Rightarrow> (event list \<times> 'w) Runner" where
  "observed r =
     \<lparr> path = path r,
       LoadWorkflow = (\<lambda>p (log, w). case LoadWorkflow r p w of (res, w') \<Rightarrow> (res, (log @ [Loaded p], w'))),
       RunCmd = (\<lambda>argv (log, w). case RunCmd r argv w of (res, w') \<Rightarrow> (res, (log @ [Ran argv], w'))),
       Sleep = (\<lambda>d (log, w). (log @ [Slept d], Sleep r d w)),
       Out = (\<lambda>s (log, w). (log @ [Wrote s], Out r s w)) \<rparr>"

text \<open>The capability invocations of a log (commands and delays), and the lines written.\<close>

fun is_call :: "event \<Rightarrow> bool" where
  "is_call (Ran argv) = True"
| "is_call (Slept d) = True"
| "is_call (Wrote s) = False"
| "is_call (Loaded p) = False"

definition calls :: "event list \<Rightarrow> event list" where
  "calls log = filter is_call log"

fun written :: "event list \<Rightarrow> string list" where
  "written [] = []"
| "written (Wrote s # es) = s # written es"
| "written (e # es) = written es"

definition Run_log :: "'w Runner \<Rightarrow> 'w \<Rightarrow> event list" where
  "Run_log r w = fst (snd (Runner_Run (observed r) ([], w)))"

definition DryRun_log :: "'w Runner \<Rightarrow> 'w \<Rightarrow> event list" where
  "DryRun_log r w = fst (snd (Runner_DryRun (observed r) ([], w)))"

text \<open>
  The events of one step of \<open>Run\<close>, of the steps of a stage and of whole stages when
  nothing stops the loops; the lemmas below relate them to the observed engine.
\<close>

definition step_events :: "nat \<Rightarrow> nat \<Rightarrow> Step \<Rightarrow> event list" where
  "step_events si i step =
     Wrote (''STEP '' @ fmt_d (int si + 1) @ ''.'' @ fmt_d (int i + 1) @ '': ''
            @ Step.Name step @ '' ('' @ Type step @ '')'' @ nl)
     # (if Type step = StepTypeExec then [Ran (Step.Run step)]
        else if Type step = StepTypeSleep then
          [Wrote (''  Sleeping for '' @ fmt_d (Seconds step) @ '' seconds...'' @ nl),
           Slept (word_of_int (Seconds step) * Second)]
        else [])"

fun steps_events :: "nat \<Rightarrow> nat \<Rightarrow> Step list \<Rightarrow> event list" where
  "steps_events si i [] = []"
| "steps_events si i (step # rest) = step_events si i step @ steps_events si (Suc i) rest"

fun stages_events :: "nat \<Rightarrow> Stage list \<Rightarrow> event list" where
  "stages_events si [] = []"
| "stages_events si (stage # rest) =
     Wrote (nl @ ''=== STAGE '' @ fmt_d (int si + 1) @ '': '' @ Stage.Name stage @ '' ==='' @ nl)
     # steps_events si 0 (Steps stage)
     @ Wrote (''=== STAGE '' @ fmt_d (int si + 1) @ '' COMPLETED ==='' @ nl)
     # stages_events (Suc si) rest"

text \<open>The same for \<open>DryRun\<close>, whose loops nothing stops.\<close>

definition dry_step_events :: "nat \<Rightarrow> nat \<Rightarrow> Step \<Rightarrow> event list" where
  "dry_step_events si i step =
     Wrote (''[DRY-RUN] STEP '' @ fmt_d (int si + 1) @ ''.'' @ fmt_d (int i + 1)
            @ '': '' @ Step.Name step @ '' ('' @ Type step @ '')'' @ nl)
     # (if Type step = StepTypeExec then
          [Wrote (''[DRY-RUN]   Would execute command: '' @ fmt_v (Step.Run step) @ nl)]
        else if Type step = StepTypeSleep then
          [Wrote (''[DRY-RUN]   Would sleep for '' @ fmt_d (Seconds step) @ '' seconds'' @ nl)]
        else [])"

fun dry_steps_events :: "nat \<Rightarrow> nat \<Rightarrow> Step list \<Rightarrow> event list" where
  "dry_steps_events si i [] = []"
| "dry_steps_events si i (step # rest) = dry_step_events si i step @ dry_steps_events si (Suc i) rest"

fun dry_stages_events :: "nat \<Rightarrow> Stage list \<Rightarrow> event list" where
  "dry_stages_events si [] = []"
| "dry_stages_events si (stage # rest) =
     Wrote (nl @ ''[DRY-RUN] === STAGE '' @ fmt_d (int si + 1) @ '': '' @ Stage.Name stage @ '' ==='' @ nl)
     # dry_steps_events si 0 (Steps stage)
     @ Wrote (''[DRY-RUN] === STAGE '' @ fmt_d (int si + 1) @ '' COMPLETED ==='' @ nl)
     # dry_stages_events (Suc si) rest"

text \<open>
  The capability events of a step as \<open>executeStep\<close> produces them, read off the source:
  the command with the step's argv, or the delay with the product
  \<open>time.Duration(step.Seconds) * time.Second\<close> as the code computes it, in 64 bits;
  nothing for any other tag.  Then those of the steps of a stage and of the stages, in the
  order of the loops.
\<close>

definition step_call :: "Step \<Rightarrow> event list" where
  "step_call step =
     (if Type step = StepTypeExec then [Ran (Step.Run step)]
      else if Type step = StepTypeSleep then [Slept (word_of_int (Seconds step) * Second)]
      else [])"

definition steps_calls :: "Step list \<Rightarrow> event list" where
  "steps_calls steps = concat (map step_call steps)"

definition stages_calls :: "Stage list \<Rightarrow> event list" where
  "stages_calls stages = concat (map (\<lambda>stage. steps_calls (Steps stage)) stages)"

definition workflow_calls :: "Workflow \<Rightarrow> event list" where
  "workflow_calls flow = stages_calls (Stages flow)"

section \<open>What the specification says, in its own words\<close>

subsection \<open>The structural invariants of the data model\<close>

definition step_invariants :: "Step \<Rightarrow> bool" where
  "step_invariants s \<longleftrightarrow>
     Step.Name s \<noteq> [] \<and>
     (Type s = StepTypeExec \<longrightarrow> Step.Run s \<noteq> []) \<and>
     (Type s = StepTypeSleep \<longrightarrow> 0 < Seconds s) \<and>
     (Type s = StepTypeExec \<or> Type s = StepTypeSleep)"

definition stage_invariants :: "Stage \<Rightarrow> bool" where
  "stage_invariants st \<longleftrightarrow>
     Stage.Name st \<noteq> [] \<and> Steps st \<noteq> [] \<and> (\<forall>s \<in> set (Steps st). step_invariants s)"

definition workflow_invariants :: "Workflow \<Rightarrow> bool" where
  "workflow_invariants w \<longleftrightarrow>
     Workflow.Name w \<noteq> [] \<and> Stages w \<noteq> [] \<and> (\<forall>st \<in> set (Stages w). stage_invariants st)"

text \<open>The eight causes of a validation error; the last one carries the offending tag.\<close>

definition is_validation_cause :: "error \<Rightarrow> bool" where
  "is_validation_cause e \<longleftrightarrow>
     e = New ''workflow name is required'' \<or>
     e = New ''workflow must have at least one stage'' \<or>
     e = New ''stage name is required'' \<or>
     e = New ''stage must have at least one step'' \<or>
     e = New ''step name is required'' \<or>
     e = New (''exec step requires '' @ sq @ ''run'' @ sq @ '' command'') \<or>
     e = New (''sleep step requires positive '' @ sq @ ''seconds'' @ sq @ '' value'') \<or>
     (case e of New m \<Rightarrow> prefix ''unknown step type: '' m | Wrap m c \<Rightarrow> False)"

subsection \<open>The first violated rule\<close>

text \<open>
  The eight kinds of validation error of the specification.  A workflow is checked top
  down: its own rules, then each stage in order, then each step in order within that
  stage; the rules of a step in the order of the list.  \<open>workflow_violations\<close> collects
  every violated rule in that order, and the validator is to report the first.
\<close>

datatype cause =
  MissingWorkflowName | EmptyStageList | MissingStageName | EmptyStepList
  | MissingStepName | ExecWithoutRun | SleepNonPositive | UnknownStepType StepType

fun cause_message :: "cause \<Rightarrow> string" where
  "cause_message MissingWorkflowName = ''workflow name is required''"
| "cause_message EmptyStageList = ''workflow must have at least one stage''"
| "cause_message MissingStageName = ''stage name is required''"
| "cause_message EmptyStepList = ''stage must have at least one step''"
| "cause_message MissingStepName = ''step name is required''"
| "cause_message ExecWithoutRun = ''exec step requires '' @ sq @ ''run'' @ sq @ '' command''"
| "cause_message SleepNonPositive = ''sleep step requires positive '' @ sq @ ''seconds'' @ sq @ '' value''"
| "cause_message (UnknownStepType t) = ''unknown step type: '' @ t"

definition step_violations :: "Step \<Rightarrow> cause list" where
  "step_violations s =
     (if Step.Name s = [] then [MissingStepName] else []) @
     (if Type s = StepTypeExec \<and> Step.Run s = [] then [ExecWithoutRun] else []) @
     (if Type s = StepTypeSleep \<and> Seconds s \<le> 0 then [SleepNonPositive] else []) @
     (if Type s \<noteq> StepTypeExec \<and> Type s \<noteq> StepTypeSleep then [UnknownStepType (Type s)] else [])"

definition stage_violations :: "Stage \<Rightarrow> cause list" where
  "stage_violations st =
     (if Stage.Name st = [] then [MissingStageName] else []) @
     (if Steps st = [] then [EmptyStepList] else []) @
     concat (map step_violations (Steps st))"

definition workflow_violations :: "Workflow \<Rightarrow> cause list" where
  "workflow_violations w =
     (if Workflow.Name w = [] then [MissingWorkflowName] else []) @
     (if Stages w = [] then [EmptyStageList] else []) @
     concat (map stage_violations (Stages w))"

fun first_of :: "'a list \<Rightarrow> 'a option" where
  "first_of [] = None"
| "first_of (x # xs) = Some x"

subsection \<open>The capability invocations a workflow asks for\<close>




subsection \<open>The trace lines\<close>

definition start_line :: "string \<Rightarrow> string" where
  "start_line p = ''Executing workflow: '' @ p @ nl"

definition done_line :: string where
  "done_line = nl @ check_mark @ '' Workflow execution completed.'' @ nl"

definition stage_marker :: "nat \<Rightarrow> Stage \<Rightarrow> string" where
  "stage_marker n stage = nl @ ''=== STAGE '' @ fmt_d (int n) @ '': '' @ Stage.Name stage @ '' ==='' @ nl"

definition stage_done_line :: "nat \<Rightarrow> string" where
  "stage_done_line n = ''=== STAGE '' @ fmt_d (int n) @ '' COMPLETED ==='' @ nl"

definition step_marker :: "nat \<Rightarrow> nat \<Rightarrow> Step \<Rightarrow> string" where
  "step_marker n m step =
     ''STEP '' @ fmt_d (int n) @ ''.'' @ fmt_d (int m) @ '': '' @ Step.Name step @ '' ('' @ Type step @ '')'' @ nl"

definition sleep_notice :: "Step \<Rightarrow> string" where
  "sleep_notice step = ''  Sleeping for '' @ fmt_d (Seconds step) @ '' seconds...'' @ nl"

definition dry_start_line :: "string \<Rightarrow> string" where
  "dry_start_line p = ''[DRY-RUN] Would execute workflow: '' @ p @ nl"

definition dry_stage_marker :: "nat \<Rightarrow> Stage \<Rightarrow> string" where
  "dry_stage_marker n stage =
     nl @ ''[DRY-RUN] === STAGE '' @ fmt_d (int n) @ '': '' @ Stage.Name stage @ '' ==='' @ nl"

definition dry_step_marker :: "nat \<Rightarrow> nat \<Rightarrow> Step \<Rightarrow> string" where
  "dry_step_marker n m step =
     ''[DRY-RUN] STEP '' @ fmt_d (int n) @ ''.'' @ fmt_d (int m) @ '': '' @ Step.Name step
     @ '' ('' @ Type step @ '')'' @ nl"

text \<open>A step marker line of a dry run is recognised by its beginning.\<close>

definition is_step_line :: "string \<Rightarrow> bool" where
  "is_step_line s = prefix ''[DRY-RUN] STEP '' s"

text \<open>
  The markers the specification lists for a run without error, with stages and steps
  numbered from one: the start marker, for each stage its stage-start marker and one step
  marker per step, and the completion marker.
\<close>

definition trace_markers :: "string \<Rightarrow> Workflow \<Rightarrow> string list" where
  "trace_markers p flow =
     start_line p
     # concat (map (\<lambda>(i, stage).
                  stage_marker (Suc i) stage
                  # map (\<lambda>(j, step). step_marker (Suc i) (Suc j) step) (enumerate 0 (Steps stage)))
                (enumerate 0 (Stages flow)))
     @ [done_line]"

text \<open>
  The whole trace of such a run: besides the markers above, each sleep step's marker is
  followed by its notice and each stage ends with its stage-completed line.
\<close>

definition run_trace :: "string \<Rightarrow> Workflow \<Rightarrow> string list" where
  "run_trace p flow =
     start_line p
     # concat (map (\<lambda>(i, stage).
                  stage_marker (Suc i) stage
                  # concat (map (\<lambda>(j, step).
                               step_marker (Suc i) (Suc j) step
                               # (if Type step = StepTypeSleep then [sleep_notice step] else []))
                             (enumerate 0 (Steps stage)))
                  @ [stage_done_line (Suc i)])
                (enumerate 0 (Stages flow)))
     @ [done_line]"

section \<open>Test doubles and example workflows\<close>

text \<open>
  The doubles of \<open>runner_test.go\<close> on a world with nothing in it: a loader that returns
  a fixed result, a command runner with a fixed answer for each argv, a delay and a sink
  that do nothing.
\<close>

definition mock :: "string \<Rightarrow> error + Workflow \<Rightarrow> (string list \<Rightarrow> error option) \<Rightarrow> unit Runner" where
  "mock p loaded cmd =
     \<lparr> path = p,
       LoadWorkflow = (\<lambda>q w. (loaded, w)),
       RunCmd = (\<lambda>argv w. (cmd argv, w)),
       Sleep = (\<lambda>d w. w),
       Out = (\<lambda>s w. w) \<rparr>"

text \<open>The workflow of \<open>TestRunner_Run_Success\<close>, the end-to-end example of the specification.\<close>

definition example_workflow :: Workflow where
  "example_workflow =
     \<lparr> Workflow.Name = ''mock-workflow'', Description = [],
       Stages =
         [\<lparr> Stage.Name = ''build'',
            Steps = [\<lparr> Step.Name = ''compile'', Type = StepTypeExec, Run = [''go'', ''build''], Seconds = 0 \<rparr>,
                     \<lparr> Step.Name = ''wait'', Type = StepTypeSleep, Run = [], Seconds = 2 \<rparr>] \<rparr>,
          \<lparr> Stage.Name = ''test'',
            Steps = [\<lparr> Step.Name = ''run-tests'', Type = StepTypeExec, Run = [''go'', ''test''], Seconds = 0 \<rparr>] \<rparr>] \<rparr>"

text \<open>The workflow of \<open>TestRunner_MultipleStages\<close>: three stages of one command each.\<close>

definition three_stages :: Workflow where
  "three_stages =
     \<lparr> Workflow.Name = ''mock-workflow'', Description = [],
       Stages =
         [\<lparr> Stage.Name = ''stage1'',
            Steps = [\<lparr> Step.Name = ''step1'', Type = StepTypeExec, Run = [''cmd1''], Seconds = 0 \<rparr>] \<rparr>,
          \<lparr> Stage.Name = ''stage2'',
            Steps = [\<lparr> Step.Name = ''step2'', Type = StepTypeExec, Run = [''cmd2''], Seconds = 0 \<rparr>] \<rparr>,
          \<lparr> Stage.Name = ''stage3'',
            Steps = [\<lparr> Step.Name = ''step3'', Type = StepTypeExec, Run = [''cmd3''], Seconds = 0 \<rparr>] \<rparr>] \<rparr>"

text \<open>
  A workflow that no validation has seen: the step of \<open>TestRunner_ExecuteStep_UnknownType\<close>
  between two commands.
\<close>

definition unknown_workflow :: Workflow where
  "unknown_workflow =
     \<lparr> Workflow.Name = ''mock-workflow'', Description = [],
       Stages =
         [\<lparr> Stage.Name = ''stage1'',
            Steps = [\<lparr> Step.Name = ''step1'', Type = StepTypeExec, Run = [''cmd1''], Seconds = 0 \<rparr>,
                     \<lparr> Step.Name = ''unknown-step'', Type = ''unknown'', Run = [], Seconds = 0 \<rparr>,
                     \<lparr> Step.Name = ''step3'', Type = StepTypeExec, Run = [''cmd3''], Seconds = 0 \<rparr>] \<rparr>] \<rparr>"

text \<open>A runner whose loader hands out that workflow unvalidated and whose commands succeed.\<close>

definition unknown_runner :: "unit Runner" where
  "unknown_runner = mock ''wf.yaml'' (Inr unknown_workflow) (\<lambda>argv. None)"



text \<open>
  A workflow whose only step has neither a name nor a command, and one whose only step
  has a name and sleeps for zero seconds.
\<close>

definition nameless_workflow :: Workflow where
  "nameless_workflow =
     \<lparr> Workflow.Name = ''w'', Description = [],
       Stages =
         [\<lparr> Stage.Name = ''s'',
            Steps = [\<lparr> Step.Name = [], Type = StepTypeExec, Run = [], Seconds = 0 \<rparr>] \<rparr>] \<rparr>"

definition zero_sleep_workflow :: Workflow where
  "zero_sleep_workflow =
     \<lparr> Workflow.Name = ''w'', Description = [],
       Stages =
         [\<lparr> Stage.Name = ''s'',
            Steps = [\<lparr> Step.Name = ''step5'', Type = StepTypeSleep, Run = [], Seconds = 0 \<rparr>] \<rparr>] \<rparr>"

text \<open>
  A workflow with three violations: in the stage at index 1 the step at index 1 is an exec
  step without a command and the step at index 2 a sleep step of zero seconds, and the
  stage at index 2 has no name.
\<close>

definition invalid_workflow :: Workflow where
  "invalid_workflow =
     \<lparr> Workflow.Name = ''release'', Description = [],
       Stages =
         [\<lparr> Stage.Name = ''build'',
            Steps = [\<lparr> Step.Name = ''compile'', Type = StepTypeExec, Run = [''go'', ''build''], Seconds = 0 \<rparr>] \<rparr>,
          \<lparr> Stage.Name = ''deploy'',
            Steps = [\<lparr> Step.Name = ''wait'', Type = StepTypeSleep, Run = [], Seconds = 5 \<rparr>,
                     \<lparr> Step.Name = ''push'', Type = StepTypeExec, Run = [], Seconds = 0 \<rparr>,
                     \<lparr> Step.Name = ''settle'', Type = StepTypeSleep, Run = [], Seconds = 0 \<rparr>] \<rparr>,
          \<lparr> Stage.Name = [],
            Steps = [\<lparr> Step.Name = ''notify'', Type = StepTypeExec, Run = [''mail''], Seconds = 0 \<rparr>] \<rparr>] \<rparr>"

section \<open>Properties of the validator\<close>

lemma validate_steps_None_iff:
  "validate_steps i steps = None \<longleftrightarrow> (\<forall>s \<in> set steps. Step_Validate s = None)"
  by (induction steps arbitrary: i) (auto split: option.splits)

lemma validate_steps_first:
  "\<forall>s \<in> set pre. Step_Validate s = None \<Longrightarrow> Step_Validate step = Some err \<Longrightarrow>
   validate_steps i (pre @ step # post) =
     Some (Wrap (''step '' @ fmt_d (int (i + length pre)) @ '' ('' @ Step.Name step @ ''): ''
                 @ Error err) err)"
  by (induction pre arbitrary: i) (auto simp: add.assoc)

lemma validate_stages_None_iff:
  "validate_stages i stages = None \<longleftrightarrow> (\<forall>s \<in> set stages. Stage_Validate s = None)"
  by (induction stages arbitrary: i) (auto split: option.splits)

lemma validate_stages_first:
  "\<forall>s \<in> set pre. Stage_Validate s = None \<Longrightarrow> Stage_Validate stage = Some err \<Longrightarrow>
   validate_stages i (pre @ stage # post) =
     Some (Wrap (''stage '' @ fmt_d (int (i + length pre)) @ '' ('' @ Stage.Name stage @ ''): ''
                 @ Error err) err)"
  by (induction pre arbitrary: i) (auto simp: add.assoc)

lemma Step_Validate_None_iff: "Step_Validate s = None \<longleftrightarrow> step_invariants s"
  by (auto simp: Step_Validate_def step_invariants_def StepTypeExec_def StepTypeSleep_def)

lemma Stage_Validate_None_iff: "Stage_Validate st = None \<longleftrightarrow> stage_invariants st"
  by (simp add: Stage_Validate_def stage_invariants_def validate_steps_None_iff Step_Validate_None_iff)

lemma is_validation_cause_New:
  "is_validation_cause (New ''workflow name is required'')"
  "is_validation_cause (New ''workflow must have at least one stage'')"
  "is_validation_cause (New ''stage name is required'')"
  "is_validation_cause (New ''stage must have at least one step'')"
  "is_validation_cause (New ''step name is required'')"
  "is_validation_cause (New (''exec step requires '' @ sq @ ''run'' @ sq @ '' command''))"
  "is_validation_cause (New (''sleep step requires positive '' @ sq @ ''seconds'' @ sq @ '' value''))"
  "is_validation_cause (New (''unknown step type: '' @ t))"
  unfolding is_validation_cause_def by simp_all

lemma Step_Validate_cause:
  assumes "Step_Validate s = Some e"
  shows "is_validation_cause (root_cause e)"
proof -
  from assms have "e = New ''step name is required''
      \<or> e = New (''exec step requires '' @ sq @ ''run'' @ sq @ '' command'')
      \<or> e = New (''sleep step requires positive '' @ sq @ ''seconds'' @ sq @ '' value'')
      \<or> e = New (''unknown step type: '' @ Type s)"
    by (simp add: Step_Validate_def split: if_splits)
  then show ?thesis
    using is_validation_cause_New(5,6,7,8) by (elim disjE) simp_all
qed


lemma validate_steps_cause:
  "validate_steps i steps = Some e \<Longrightarrow> is_validation_cause (root_cause e)"
proof (induction steps arbitrary: i)
  case Nil
  then show ?case by simp
next
  case (Cons s steps)
  show ?case
  proof (cases "Step_Validate s")
    case None
    with Cons.prems have "validate_steps (Suc i) steps = Some e" by simp
    then show ?thesis by (rule Cons.IH)
  next
    case (Some a)
    with Cons.prems have "root_cause e = root_cause a" by auto
    with Step_Validate_cause[OF Some] show ?thesis by simp
  qed
qed

lemma Stage_Validate_cause:
  assumes "Stage_Validate st = Some e"
  shows "is_validation_cause (root_cause e)"
proof -
  from assms have "e = New ''stage name is required'' \<or> e = New ''stage must have at least one step''
      \<or> validate_steps 0 (Steps st) = Some e"
    by (simp add: Stage_Validate_def split: if_splits)
  then show ?thesis
    using is_validation_cause_New(3,4) validate_steps_cause[of 0 "Steps st" e]
    by (elim disjE) simp_all
qed

lemma validate_stages_cause:
  "validate_stages i stages = Some e \<Longrightarrow> is_validation_cause (root_cause e)"
proof (induction stages arbitrary: i)
  case Nil
  then show ?case by simp
next
  case (Cons s stages)
  show ?case
  proof (cases "Stage_Validate s")
    case None
    with Cons.prems have "validate_stages (Suc i) stages = Some e" by simp
    then show ?thesis by (rule Cons.IH)
  next
    case (Some a)
    with Cons.prems have "root_cause e = root_cause a" by auto
    with Stage_Validate_cause[OF Some] show ?thesis by simp
  qed
qed

lemma Workflow_Validate_cause:
  assumes "Workflow_Validate w = Some e"
  shows "is_validation_cause (root_cause e)"
proof -
  from assms have "e = New ''workflow name is required''
      \<or> e = New ''workflow must have at least one stage''
      \<or> validate_stages 0 (Stages w) = Some e"
    by (simp add: Workflow_Validate_def split: if_splits)
  then show ?thesis
    using is_validation_cause_New(1,2) validate_stages_cause[of 0 "Stages w" e]
    by (elim disjE) simp_all
qed

lemmas eval_simps =
  Step_Validate_def Stage_Validate_def Workflow_Validate_def StepTypeExec_def StepTypeSleep_def
  fmt_d_def fmt_v_def digits10.simps sq_def nl_def check_mark_def Second_def

lemma first_of_append:
  "first_of (xs @ ys) = (case first_of xs of Some x \<Rightarrow> Some x | None \<Rightarrow> first_of ys)"
  by (cases xs) simp_all

lemma first_of_None_iff: "first_of xs = None \<longleftrightarrow> xs = []"
  by (cases xs) simp_all

lemma Step_Validate_first_violation:
  "Step_Validate s = map_option (\<lambda>c. New (cause_message c)) (first_of (step_violations s))"
proof (cases "Step.Name s = []")
  case True
  then show ?thesis by (simp add: Step_Validate_def step_violations_def)
next
  case named: False
  show ?thesis
  proof (cases "Type s = StepTypeExec")
    case True
    with named show ?thesis
      by (simp add: Step_Validate_def step_violations_def StepTypeExec_def StepTypeSleep_def)
  next
    case notexec: False
    show ?thesis
    proof (cases "Type s = StepTypeSleep")
      case True
      with named notexec show ?thesis
        by (simp add: Step_Validate_def step_violations_def)
    next
      case False
      with named notexec show ?thesis
        by (simp add: Step_Validate_def step_violations_def)
    qed
  qed
qed

lemma validate_steps_first_violation:
  "map_option root_cause (validate_steps i steps)
     = map_option (\<lambda>c. New (cause_message c)) (first_of (concat (map step_violations steps)))"
proof (induction steps arbitrary: i)
  case Nil
  then show ?case by simp
next
  case (Cons s steps)
  show ?case
  proof (cases "first_of (step_violations s)")
    case None
    then have "step_violations s = []" "Step_Validate s = None"
      by (simp_all add: first_of_None_iff Step_Validate_first_violation)
    with Cons show ?thesis by simp
  next
    case (Some c)
    then have "Step_Validate s = Some (New (cause_message c))"
      by (simp add: Step_Validate_first_violation)
    with Some show ?thesis by (simp add: first_of_append)
  qed
qed

lemma Stage_Validate_first_violation:
  "map_option root_cause (Stage_Validate st)
     = map_option (\<lambda>c. New (cause_message c)) (first_of (stage_violations st))"
proof (cases "Stage.Name st = []")
  case True
  then show ?thesis by (simp add: Stage_Validate_def stage_violations_def)
next
  case named: False
  show ?thesis
  proof (cases "Steps st = []")
    case True
    with named show ?thesis by (simp add: Stage_Validate_def stage_violations_def)
  next
    case False
    with named show ?thesis
      by (simp add: Stage_Validate_def stage_violations_def validate_steps_first_violation)
  qed
qed

lemma validate_stages_first_violation:
  "map_option root_cause (validate_stages i stages)
     = map_option (\<lambda>c. New (cause_message c)) (first_of (concat (map stage_violations stages)))"
proof (induction stages arbitrary: i)
  case Nil
  then show ?case by simp
next
  case (Cons st stages)
  show ?case
  proof (cases "Stage_Validate st")
    case None
    with Stage_Validate_first_violation[of st] have "stage_violations st = []"
      by (simp add: first_of_None_iff)
    with None Cons show ?thesis by simp
  next
    case (Some e)
    with Stage_Validate_first_violation[of st]
    obtain c where c: "first_of (stage_violations st) = Some c" "root_cause e = New (cause_message c)"
      by (cases "first_of (stage_violations st)") simp_all
    with Some show ?thesis by (simp add: first_of_append)
  qed
qed

lemma Workflow_Validate_first_violation:
  "map_option root_cause (Workflow_Validate w)
     = map_option (\<lambda>c. New (cause_message c)) (first_of (workflow_violations w))"
proof (cases "Workflow.Name w = []")
  case True
  then show ?thesis by (simp add: Workflow_Validate_def workflow_violations_def)
next
  case named: False
  show ?thesis
  proof (cases "Stages w = []")
    case True
    with named show ?thesis by (simp add: Workflow_Validate_def workflow_violations_def)
  next
    case False
    with named show ?thesis
      by (simp add: Workflow_Validate_def workflow_violations_def validate_stages_first_violation)
  qed
qed


text \<open>
  C3.  \<open>Workflow.Validate\<close> returns no error exactly when every structural invariant of
  the data model holds.  When it rejects, the innermost cause of its error is one of the
  eight listed causes, and it is the right one: the message of the first rule that the
  workflow violates, in the order workflow, stages, steps.  The same holds of
  \<open>Stage.Validate\<close> and \<open>Step.Validate\<close> called on their own.
\<close>

theorem workflow_validate_accepts_iff_invariants:
  "(Workflow_Validate w = None \<longleftrightarrow> workflow_invariants w) \<and>
   (\<forall>e. Workflow_Validate w = Some e \<longrightarrow> is_validation_cause (root_cause e)) \<and>
   map_option root_cause (Workflow_Validate w)
     = map_option (\<lambda>c. New (cause_message c)) (first_of (workflow_violations w)) \<and>
   map_option root_cause (Stage_Validate st)
     = map_option (\<lambda>c. New (cause_message c)) (first_of (stage_violations st)) \<and>
   Step_Validate s = map_option (\<lambda>c. New (cause_message c)) (first_of (step_violations s))"
proof (intro conjI allI impI)
  show "Workflow_Validate w = None \<longleftrightarrow> workflow_invariants w"
    by (simp add: Workflow_Validate_def workflow_invariants_def validate_stages_None_iff
        Stage_Validate_None_iff)
  show "map_option root_cause (Workflow_Validate w)
     = map_option (\<lambda>c. New (cause_message c)) (first_of (workflow_violations w))"
    by (rule Workflow_Validate_first_violation)
  show "map_option root_cause (Stage_Validate st)
     = map_option (\<lambda>c. New (cause_message c)) (first_of (stage_violations st))"
    by (rule Stage_Validate_first_violation)
  show "Step_Validate s = map_option (\<lambda>c. New (cause_message c)) (first_of (step_violations s))"
    by (rule Step_Validate_first_violation)
next
  fix e
  assume "Workflow_Validate w = Some e"
  then show "is_validation_cause (root_cause e)"
    by (rule Workflow_Validate_cause)
qed

lemmas violation_simps =
  workflow_violations_def stage_violations_def step_violations_def StepTypeExec_def StepTypeSleep_def

theorem workflow_validate_accepts_iff_invariants_witness:
  "Workflow_Validate example_workflow = None \<and> workflow_invariants example_workflow \<and>
   Workflow_Validate invalid_workflow =
     Some (Wrap (''stage 1 (deploy): step 1 (push): exec step requires '' @ sq @ ''run'' @ sq @ '' command'')
            (Wrap (''step 1 (push): exec step requires '' @ sq @ ''run'' @ sq @ '' command'')
              (New (''exec step requires '' @ sq @ ''run'' @ sq @ '' command'')))) \<and>
   is_validation_cause (New (''exec step requires '' @ sq @ ''run'' @ sq @ '' command'')) \<and>
   map_option root_cause (Workflow_Validate nameless_workflow) = Some (New ''step name is required'') \<and>
   map_option root_cause (Workflow_Validate zero_sleep_workflow)
     = Some (New (''sleep step requires positive '' @ sq @ ''seconds'' @ sq @ '' value''))"
proof -
  have ok: "Workflow_Validate example_workflow = None"
    by (simp add: example_workflow_def eval_simps)
  have bad: "Workflow_Validate invalid_workflow =
     Some (Wrap (''stage 1 (deploy): step 1 (push): exec step requires '' @ sq @ ''run'' @ sq @ '' command'')
            (Wrap (''step 1 (push): exec step requires '' @ sq @ ''run'' @ sq @ '' command'')
              (New (''exec step requires '' @ sq @ ''run'' @ sq @ '' command''))))"
    by (simp add: invalid_workflow_def eval_simps)
  have v1: "first_of (workflow_violations nameless_workflow) = Some MissingStepName"
    by (simp add: nameless_workflow_def violation_simps)
  have v2: "first_of (workflow_violations zero_sleep_workflow) = Some SleepNonPositive"
    by (simp add: zero_sleep_workflow_def violation_simps)
  from workflow_validate_accepts_iff_invariants [of example_workflow] ok
  have inv: "workflow_invariants example_workflow" by simp
  from workflow_validate_accepts_iff_invariants [of invalid_workflow] bad
  have cause: "is_validation_cause (New (''exec step requires '' @ sq @ ''run'' @ sq @ '' command''))"
    by simp
  from workflow_validate_accepts_iff_invariants [of nameless_workflow] v1
  have c1: "map_option root_cause (Workflow_Validate nameless_workflow) = Some (New ''step name is required'')"
    by simp
  from workflow_validate_accepts_iff_invariants [of zero_sleep_workflow] v2
  have c2: "map_option root_cause (Workflow_Validate zero_sleep_workflow)
     = Some (New (''sleep step requires positive '' @ sq @ ''seconds'' @ sq @ '' value''))"
    by simp
  from ok inv bad cause c1 c2 show ?thesis by simp
qed

lemma Step_Validate_root:
  "Step_Validate s = Some e \<Longrightarrow> root_cause e = e"
  by (auto simp: Step_Validate_def split: if_splits)

lemma Stage_Validate_first:
  assumes "Stage.Name stage \<noteq> []" and "Steps stage = spre @ step # spost"
    and "\<forall>s \<in> set spre. Step_Validate s = None" and "Step_Validate step = Some cause"
  shows "Stage_Validate stage =
     Some (Wrap (''step '' @ fmt_d (int (length spre)) @ '' ('' @ Step.Name step @ ''): ''
                 @ Error cause) cause)"
  using assms validate_steps_first[of spre step cause 0 spost]
  by (simp add: Stage_Validate_def)

lemma Workflow_Validate_first:
  assumes "Workflow.Name w \<noteq> []" and "Stages w = pre @ stage # post"
    and "\<forall>s \<in> set pre. Stage_Validate s = None" and "Stage_Validate stage = Some err"
  shows "Workflow_Validate w =
     Some (Wrap (''stage '' @ fmt_d (int (length pre)) @ '' ('' @ Stage.Name stage @ ''): ''
                 @ Error err) err)"
  using assms validate_stages_first[of pre stage err 0 post]
  by (simp add: Workflow_Validate_def)

text \<open>
  C9.  \<open>Step.Validate\<close> reads only the fields of the step's own variant: an exec step with
  a name and a command is accepted whatever its seconds are, a sleep step with a name and
  positive seconds is accepted whatever its command is, and changing the other variant's
  field never changes the verdict.
\<close>

theorem step_validate_reads_own_variant_only:
  "(Step.Name s \<noteq> [] \<and> Type s = StepTypeExec \<and> Step.Run s \<noteq> []
      \<longrightarrow> Step_Validate (s\<lparr>Seconds := n\<rparr>) = None) \<and>
   (Step.Name s \<noteq> [] \<and> Type s = StepTypeSleep \<and> 0 < Seconds s
      \<longrightarrow> Step_Validate (s\<lparr>Step.Run := argv\<rparr>) = None) \<and>
   (Type s = StepTypeExec \<longrightarrow> Step_Validate (s\<lparr>Seconds := n\<rparr>) = Step_Validate s) \<and>
   (Type s = StepTypeSleep \<longrightarrow> Step_Validate (s\<lparr>Step.Run := argv\<rparr>) = Step_Validate s)"
  by (simp add: Step_Validate_def StepTypeExec_def StepTypeSleep_def)

theorem step_validate_reads_own_variant_only_witness:
  "Step_Validate \<lparr> Step.Name = ''compile'', Type = StepTypeExec, Run = [''go'', ''build''], Seconds = - 3 \<rparr> = None \<and>
   Step_Validate \<lparr> Step.Name = ''wait'', Type = StepTypeSleep, Run = [''rm'', ''-rf''], Seconds = 2 \<rparr> = None"
  using step_validate_reads_own_variant_only
      [of "\<lparr> Step.Name = ''compile'', Type = StepTypeExec, Run = [''go'', ''build''], Seconds = 0 \<rparr>" "- 3"]
    step_validate_reads_own_variant_only
      [of "\<lparr> Step.Name = ''wait'', Type = StepTypeSleep, Run = [], Seconds = 2 \<rparr>" _ "[''rm'', ''-rf'']"]
  by (simp add: StepTypeExec_def StepTypeSleep_def)

text \<open>
  C5.  Validation stops at the first violation in declaration order.  The workflow's own
  rules come first; then the first stage that fails decides the result, whatever the
  stages after it hold, and within a stage the first step that fails decides, whatever
  the steps after it hold.  The error is a single chain: the violated rule, wrapped with
  the step's index and name, wrapped with the stage's index and name, so that the final
  message names both.
\<close>

theorem validate_fail_fast:
  "(Workflow.Name w = [] \<longrightarrow> Workflow_Validate w = Some (New ''workflow name is required'')) \<and>
   (Workflow.Name w \<noteq> [] \<and> Stages w = []
      \<longrightarrow> Workflow_Validate w = Some (New ''workflow must have at least one stage'')) \<and>
   (Workflow.Name w \<noteq> [] \<and> Stages w = pre @ stage # post \<and>
    (\<forall>s \<in> set pre. Stage_Validate s = None) \<and> Stage_Validate stage = Some err
      \<longrightarrow> Workflow_Validate w =
            Some (Wrap (''stage '' @ fmt_d (int (length pre)) @ '' ('' @ Stage.Name stage @ ''): ''
                        @ Error err) err)) \<and>
   (Stage.Name stage = [] \<longrightarrow> Stage_Validate stage = Some (New ''stage name is required'')) \<and>
   (Stage.Name stage \<noteq> [] \<and> Steps stage = []
      \<longrightarrow> Stage_Validate stage = Some (New ''stage must have at least one step'')) \<and>
   (Stage.Name stage \<noteq> [] \<and> Steps stage = spre @ step # spost \<and>
    (\<forall>s \<in> set spre. Step_Validate s = None) \<and> Step_Validate step = Some cause
      \<longrightarrow> Stage_Validate stage =
            Some (Wrap (''step '' @ fmt_d (int (length spre)) @ '' ('' @ Step.Name step @ ''): ''
                        @ Error cause) cause)) \<and>
   (Workflow.Name w \<noteq> [] \<and> Stages w = pre @ stage # post \<and>
    (\<forall>s \<in> set pre. Stage_Validate s = None) \<and>
    Stage.Name stage \<noteq> [] \<and> Steps stage = spre @ step # spost \<and>
    (\<forall>s \<in> set spre. Step_Validate s = None) \<and> Step_Validate step = Some cause
      \<longrightarrow> (\<exists>e. Workflow_Validate w = Some e \<and>
               Error e = ''stage '' @ fmt_d (int (length pre)) @ '' ('' @ Stage.Name stage @ ''): ''
                         @ ''step '' @ fmt_d (int (length spre)) @ '' ('' @ Step.Name step @ ''): ''
                         @ Error cause \<and>
               root_cause e = cause))"
proof (intro conjI impI)
  show "Workflow_Validate w = Some (New ''workflow name is required'')" if "Workflow.Name w = []"
    using that by (simp add: Workflow_Validate_def)
  show "Workflow_Validate w = Some (New ''workflow must have at least one stage'')"
    if "Workflow.Name w \<noteq> [] \<and> Stages w = []"
    using that by (simp add: Workflow_Validate_def)
  show "Workflow_Validate w =
            Some (Wrap (''stage '' @ fmt_d (int (length pre)) @ '' ('' @ Stage.Name stage @ ''): ''
                        @ Error err) err)"
    if "Workflow.Name w \<noteq> [] \<and> Stages w = pre @ stage # post \<and>
        (\<forall>s \<in> set pre. Stage_Validate s = None) \<and> Stage_Validate stage = Some err"
    using that by (intro Workflow_Validate_first) simp_all
  show "Stage_Validate stage = Some (New ''stage name is required'')" if "Stage.Name stage = []"
    using that by (simp add: Stage_Validate_def)
  show "Stage_Validate stage = Some (New ''stage must have at least one step'')"
    if "Stage.Name stage \<noteq> [] \<and> Steps stage = []"
    using that by (simp add: Stage_Validate_def)
  show "Stage_Validate stage =
            Some (Wrap (''step '' @ fmt_d (int (length spre)) @ '' ('' @ Step.Name step @ ''): ''
                        @ Error cause) cause)"
    if "Stage.Name stage \<noteq> [] \<and> Steps stage = spre @ step # spost \<and>
        (\<forall>s \<in> set spre. Step_Validate s = None) \<and> Step_Validate step = Some cause"
    using that by (intro Stage_Validate_first) simp_all
  show "\<exists>e. Workflow_Validate w = Some e \<and>
               Error e = ''stage '' @ fmt_d (int (length pre)) @ '' ('' @ Stage.Name stage @ ''): ''
                         @ ''step '' @ fmt_d (int (length spre)) @ '' ('' @ Step.Name step @ ''): ''
                         @ Error cause \<and>
               root_cause e = cause"
    if h: "Workflow.Name w \<noteq> [] \<and> Stages w = pre @ stage # post \<and>
        (\<forall>s \<in> set pre. Stage_Validate s = None) \<and>
        Stage.Name stage \<noteq> [] \<and> Steps stage = spre @ step # spost \<and>
        (\<forall>s \<in> set spre. Step_Validate s = None) \<and> Step_Validate step = Some cause"
  proof -
    from h have st: "Stage_Validate stage =
            Some (Wrap (''step '' @ fmt_d (int (length spre)) @ '' ('' @ Step.Name step @ ''): ''
                        @ Error cause) cause)"
      by (intro Stage_Validate_first) simp_all
    from h have "Workflow_Validate w =
            Some (Wrap (''stage '' @ fmt_d (int (length pre)) @ '' ('' @ Stage.Name stage @ ''): ''
                        @ Error (Wrap (''step '' @ fmt_d (int (length spre)) @ '' ('' @ Step.Name step @ ''): ''
                        @ Error cause) cause))
                   (Wrap (''step '' @ fmt_d (int (length spre)) @ '' ('' @ Step.Name step @ ''): ''
                        @ Error cause) cause))"
      by (intro Workflow_Validate_first st) simp_all
    moreover from h have "root_cause cause = cause"
      by (intro Step_Validate_root[of step]) simp
    ultimately show ?thesis by simp
  qed
qed


theorem validate_fail_fast_witness:
  "Workflow_Validate invalid_workflow =
     Some (Wrap (''stage 1 (deploy): step 1 (push): exec step requires '' @ sq @ ''run'' @ sq @ '' command'')
            (Wrap (''step 1 (push): exec step requires '' @ sq @ ''run'' @ sq @ '' command'')
              (New (''exec step requires '' @ sq @ ''run'' @ sq @ '' command'')))) \<and>
   (\<exists>e. Workflow_Validate invalid_workflow = Some e \<and>
        Error e = ''stage 1 (deploy): step 1 (push): exec step requires '' @ sq @ ''run'' @ sq @ '' command'' \<and>
        root_cause e = New (''exec step requires '' @ sq @ ''run'' @ sq @ '' command''))"
proof -
  let ?build = "\<lparr> Stage.Name = ''build'',
            Steps = [\<lparr> Step.Name = ''compile'', Type = StepTypeExec, Run = [''go'', ''build''], Seconds = 0 \<rparr>] \<rparr>"
  let ?wait = "\<lparr> Step.Name = ''wait'', Type = StepTypeSleep, Run = [], Seconds = 5 \<rparr>"
  let ?push = "\<lparr> Step.Name = ''push'', Type = StepTypeExec, Run = [], Seconds = 0 \<rparr>"
  let ?settle = "\<lparr> Step.Name = ''settle'', Type = StepTypeSleep, Run = [], Seconds = 0 \<rparr>"
  let ?deploy = "\<lparr> Stage.Name = ''deploy'', Steps = [?wait, ?push, ?settle] \<rparr>"
  let ?last = "\<lparr> Stage.Name = [],
            Steps = [\<lparr> Step.Name = ''notify'', Type = StepTypeExec, Run = [''mail''], Seconds = 0 \<rparr>] \<rparr>"
  let ?rule = "New (''exec step requires '' @ sq @ ''run'' @ sq @ '' command'')"
  let ?inner = "Wrap (''step 1 (push): exec step requires '' @ sq @ ''run'' @ sq @ '' command'') ?rule"
  have hyps: "Workflow.Name invalid_workflow \<noteq> [] \<and> Stages invalid_workflow = [?build] @ ?deploy # [?last] \<and>
      (\<forall>s \<in> set [?build]. Stage_Validate s = None) \<and> Stage_Validate ?deploy = Some ?inner \<and>
      Stage.Name ?deploy \<noteq> [] \<and> Steps ?deploy = [?wait] @ ?push # [?settle] \<and>
      (\<forall>s \<in> set [?wait]. Step_Validate s = None) \<and> Step_Validate ?push = Some ?rule"
    by (simp add: invalid_workflow_def eval_simps)
  from validate_fail_fast
    [of invalid_workflow "[?build]" ?deploy "[?last]" ?inner "[?wait]" ?push "[?settle]" ?rule] hyps
  show ?thesis
    by (simp add: fmt_d_def digits10.simps)
qed

section \<open>Properties of the observed engine\<close>

lemma calls_Nil [simp]: "calls [] = []"
  by (simp add: calls_def)

lemma calls_Cons [simp]: "calls (e # es) = (if is_call e then e # calls es else calls es)"
  by (simp add: calls_def)

lemma calls_append [simp]: "calls (xs @ ys) = calls xs @ calls ys"
  by (simp add: calls_def)

lemma written_append [simp]: "written (xs @ ys) = written xs @ written ys"
  by (induction xs rule: written.induct) auto

lemma observed_sel [simp]:
  "path (observed r) = path r"
  "Out (observed r) s (l, w) = (l @ [Wrote s], Out r s w)"
  "Sleep (observed r) d (l, w) = (l @ [Slept d], Sleep r d w)"
  "RunCmd (observed r) argv (l, w) = (fst (RunCmd r argv w), (l @ [Ran argv], snd (RunCmd r argv w)))"
  "LoadWorkflow (observed r) p (l, w) = (fst (LoadWorkflow r p w), (l @ [Loaded p], snd (LoadWorkflow r p w)))"
  by (simp_all add: observed_def split: prod.splits)

lemma steps_calls_simps [simp]:
  "steps_calls [] = []"
  "steps_calls (step # rest) = step_call step @ steps_calls rest"
  "steps_calls (xs @ ys) = steps_calls xs @ steps_calls ys"
  by (simp_all add: steps_calls_def)

lemma stages_calls_simps [simp]:
  "stages_calls [] = []"
  "stages_calls (stage # rest) = steps_calls (Steps stage) @ stages_calls rest"
  "stages_calls (xs @ ys) = stages_calls xs @ stages_calls ys"
  by (simp_all add: stages_calls_def)

lemma calls_step_events: "calls (step_events si i step) = step_call step"
  by (simp add: step_events_def step_call_def)

lemma calls_steps_events: "calls (steps_events si i steps) = steps_calls steps"
  by (induction steps arbitrary: i) (simp_all add: calls_step_events)

lemma calls_stages_events: "calls (stages_events si stages) = stages_calls stages"
  by (induction stages arbitrary: si) (simp_all add: calls_steps_events)

lemma prefix_steps_calls_take: "prefix (steps_calls (take k steps)) (steps_calls steps)"
proof -
  have "steps_calls steps = steps_calls (take k steps) @ steps_calls (drop k steps)"
    by (metis append_take_drop_id steps_calls_simps(3))
  then show ?thesis by (simp add: prefix_def)
qed

text \<open>
  One step under observation: the events after the step marker are those of
  \<open>step_events\<close>, whether the step succeeds or not, and the engine does to the world
  what it does without the observer.
\<close>

lemma executeStep_observed:
  "executeStep (observed r) step (l, w) = (res, (l', w')) \<Longrightarrow>
   step_events si i step = Wrote m # evs \<Longrightarrow> l' = l @ evs \<and> executeStep r step w = (res, w')"
  by (auto simp: executeStep_def step_events_def Let_def split: if_splits prod.splits option.splits)

lemma run_steps_observed:
  "run_steps (observed r) si stage i steps (l, w) = (res, (l', w')) \<Longrightarrow>
   \<exists>k\<le>length steps. l' = l @ steps_events si i (take k steps) \<and> (res = None \<longrightarrow> k = length steps)
      \<and> (steps \<noteq> [] \<longrightarrow> 0 < k)
      \<and> run_steps r si stage i steps w = (res, w')"
proof (induction steps arbitrary: i l w)
  case Nil
  then show ?case by simp
next
  case (Cons step rest)
  let ?m = "''STEP '' @ fmt_d (int si + 1) @ ''.'' @ fmt_d (int i + 1) @ '': ''
            @ Step.Name step @ '' ('' @ Type step @ '')'' @ nl"
  obtain evs where se: "step_events si i step = Wrote ?m # evs"
    by (simp add: step_events_def)
  obtain r1 l1 w1 where ex: "executeStep (observed r) step (l @ [Wrote ?m], Out r ?m w) = (r1, (l1, w1))"
    by (metis prod.exhaust)
  from executeStep_observed[OF ex se]
  have l1: "l1 = l @ step_events si i step" and ex': "executeStep r step (Out r ?m w) = (r1, w1)"
    by (simp_all add: se)
  show ?case
  proof (cases r1)
    case None
    with Cons.prems ex have "run_steps (observed r) si stage (Suc i) rest (l1, w1) = (res, (l', w'))"
      by simp
    from Cons.IH[OF this] obtain k where k: "k \<le> length rest"
      "l' = l1 @ steps_events si (Suc i) (take k rest)" "res = None \<longrightarrow> k = length rest"
      "run_steps r si stage (Suc i) rest w1 = (res, w')" by blast
    with l1 ex' None show ?thesis
      by (intro exI[of _ "Suc k"]) simp
  next
    case (Some e)
    with Cons.prems ex l1 ex' show ?thesis
      by (intro exI[of _ "Suc 0"]) auto
  qed
qed

lemma run_stages_observed:
  "run_stages (observed r) si stages (l, w) = (res, (l', w')) \<Longrightarrow>
   \<exists>evs. l' = l @ evs
      \<and> prefix (calls evs) (stages_calls stages)
      \<and> (res = None \<longrightarrow> evs = stages_events si stages)
      \<and> (\<forall>stage rest step srest. stages = stage # rest \<and> Steps stage = step # srest \<longrightarrow>
            take 2 evs = [Wrote (nl @ ''=== STAGE '' @ fmt_d (int si + 1) @ '': '' @ Stage.Name stage @ '' ==='' @ nl),
                          Wrote (''STEP '' @ fmt_d (int si + 1) @ ''.'' @ fmt_d (int 0 + 1) @ '': ''
                                 @ Step.Name step @ '' ('' @ Type step @ '')'' @ nl)])
      \<and> run_stages r si stages w = (res, w')"
proof (induction stages arbitrary: si l w)
  case Nil
  then show ?case by simp
next
  case (Cons stage rest)
  let ?h = "nl @ ''=== STAGE '' @ fmt_d (int si + 1) @ '': '' @ Stage.Name stage @ '' ==='' @ nl"
  let ?c = "''=== STAGE '' @ fmt_d (int si + 1) @ '' COMPLETED ==='' @ nl"
  obtain r1 l1 w1 where rs: "run_steps (observed r) si stage 0 (Steps stage) (l @ [Wrote ?h], Out r ?h w) = (r1, (l1, w1))"
    by (metis prod.exhaust)
  from run_steps_observed[OF rs] obtain k where k: "k \<le> length (Steps stage)"
    "l1 = (l @ [Wrote ?h]) @ steps_events si 0 (take k (Steps stage))"
    "r1 = None \<longrightarrow> k = length (Steps stage)" "Steps stage \<noteq> [] \<longrightarrow> 0 < k"
    "run_steps r si stage 0 (Steps stage) (Out r ?h w) = (r1, w1)" by blast
  have first: "take 2 (Wrote ?h # steps_events si 0 (take k (Steps stage)) @ more)
      = [Wrote ?h, Wrote (''STEP '' @ fmt_d (int si + 1) @ ''.'' @ fmt_d (int 0 + 1) @ '': ''
                                 @ Step.Name step @ '' ('' @ Type step @ '')'' @ nl)]"
    if "Steps stage = step # srest" for step srest more
  proof -
    from that k(4) obtain k' where "k = Suc k'" by (cases k) auto
    with that show ?thesis by (simp add: step_events_def)
  qed
  show ?case
  proof (cases r1)
    case None
    with Cons.prems rs
    have "run_stages (observed r) (Suc si) rest (l1 @ [Wrote ?c], Out r ?c w1) = (res, (l', w'))"
      by simp
    from Cons.IH[OF this] obtain evs where evs: "l' = (l1 @ [Wrote ?c]) @ evs"
      "prefix (calls evs) (stages_calls rest)"
      "res = None \<longrightarrow> evs = stages_events (Suc si) rest"
      "run_stages r (Suc si) rest (Out r ?c w1) = (res, w')" by blast
    from None k have kk: "take k (Steps stage) = Steps stage" by simp
    show ?thesis
    proof (intro exI[of _ "Wrote ?h # steps_events si 0 (Steps stage) @ Wrote ?c # evs"] conjI)
      show "l' = l @ Wrote ?h # steps_events si 0 (Steps stage) @ Wrote ?c # evs"
        using evs(1) k(2) kk by simp
      show "prefix (calls (Wrote ?h # steps_events si 0 (Steps stage) @ Wrote ?c # evs))
              (stages_calls (stage # rest))"
        using evs(2) by (simp add: calls_steps_events)
      show "res = None \<longrightarrow> Wrote ?h # steps_events si 0 (Steps stage) @ Wrote ?c # evs = stages_events si (stage # rest)"
        using evs(3) by simp
      show "run_stages r si (stage # rest) w = (res, w')"
        using evs(4) k(5) None by simp
      show "\<forall>stage' rest' step srest. stage # rest = stage' # rest' \<and> Steps stage' = step # srest \<longrightarrow>
          take 2 (Wrote ?h # steps_events si 0 (Steps stage) @ Wrote ?c # evs) =
          [Wrote (nl @ ''=== STAGE '' @ fmt_d (int si + 1) @ '': '' @ Stage.Name stage' @ '' ==='' @ nl),
           Wrote (''STEP '' @ fmt_d (int si + 1) @ ''.'' @ fmt_d (int 0 + 1) @ '': ''
                                 @ Step.Name step @ '' ('' @ Type step @ '')'' @ nl)]"
        using first[of _ _ "Wrote ?c # evs"] kk by auto
    qed
  next
    case (Some e)
    with Cons.prems rs have res: "res = Some e" "l' = l1" "w' = w1" by simp_all
    show ?thesis
    proof (intro exI[of _ "Wrote ?h # steps_events si 0 (take k (Steps stage))"] conjI)
      show "l' = l @ Wrote ?h # steps_events si 0 (take k (Steps stage))"
        using res k(2) by simp
      have "prefix (steps_calls (take k (Steps stage))) (steps_calls (Steps stage))"
        by (rule prefix_steps_calls_take)
      then show "prefix (calls (Wrote ?h # steps_events si 0 (take k (Steps stage))))
              (stages_calls (stage # rest))"
        by (simp add: calls_steps_events prefix_def) (metis append.assoc)
      show "res = None \<longrightarrow> Wrote ?h # steps_events si 0 (take k (Steps stage)) = stages_events si (stage # rest)"
        using res by simp
      show "run_stages r si (stage # rest) w = (res, w')"
        using res k(5) Some by simp
      show "\<forall>stage' rest' step srest. stage # rest = stage' # rest' \<and> Steps stage' = step # srest \<longrightarrow>
          take 2 (Wrote ?h # steps_events si 0 (take k (Steps stage))) =
          [Wrote (nl @ ''=== STAGE '' @ fmt_d (int si + 1) @ '': '' @ Stage.Name stage' @ '' ==='' @ nl),
           Wrote (''STEP '' @ fmt_d (int si + 1) @ ''.'' @ fmt_d (int 0 + 1) @ '': ''
                                 @ Step.Name step @ '' ('' @ Type step @ '')'' @ nl)]"
        using first[of _ _ "[]"] by auto
    qed
  qed
qed


text \<open>The whole of \<open>Run\<close> under observation.\<close>

lemma Runner_Run_observed:
  "\<exists>rest. Runner_Run (observed r) ([], w)
       = (fst (Runner_Run r w), (Wrote (start_line (path r)) # Loaded (path r) # rest, snd (Runner_Run r w)))
    \<and> (case fst (LoadWorkflow r (path r) (Out r (start_line (path r)) w)) of
         Inl err \<Rightarrow> rest = [] \<and> fst (Runner_Run r w) = Some err
       | Inr flow \<Rightarrow>
           prefix (calls rest) (workflow_calls flow)
           \<and> (fst (Runner_Run r w) = None \<longrightarrow> rest = stages_events 0 (Stages flow) @ [Wrote done_line])
           \<and> (\<forall>stage srest step rest'. Stages flow = stage # srest \<and> Steps stage = step # rest' \<longrightarrow>
                 take 2 rest = [Wrote (stage_marker 1 stage), Wrote (step_marker 1 1 step)]))"
proof -
  let ?s = "start_line (path r)"
  obtain lr w2 where ld: "LoadWorkflow r (path r) (Out r ?s w) = (lr, w2)"
    by (metis prod.exhaust)
  show ?thesis
  proof (cases lr)
    case (Inl err)
    with ld show ?thesis
      by (simp add: Runner_Run_def start_line_def)
  next
    case (Inr flow)
    obtain r3 l3 w3 where rs:
      "run_stages (observed r) 0 (Stages flow) ([Wrote ?s, Loaded (path r)], w2) = (r3, (l3, w3))"
      by (metis prod.exhaust)
    from run_stages_observed[OF rs] obtain es where es: "l3 = [Wrote ?s, Loaded (path r)] @ es"
      "prefix (calls es) (stages_calls (Stages flow))" "r3 = None \<longrightarrow> es = stages_events 0 (Stages flow)"
      "\<forall>stage rest step srest. Stages flow = stage # rest \<and> Steps stage = step # srest \<longrightarrow>
            take 2 es = [Wrote (nl @ ''=== STAGE '' @ fmt_d (int 0 + 1) @ '': '' @ Stage.Name stage @ '' ==='' @ nl),
                          Wrote (''STEP '' @ fmt_d (int 0 + 1) @ ''.'' @ fmt_d (int 0 + 1) @ '': ''
                                 @ Step.Name step @ '' ('' @ Type step @ '')'' @ nl)]"
      "run_stages r 0 (Stages flow) w2 = (r3, w3)"
      by blast
    have mk: "take 2 (es @ more) = [Wrote (stage_marker 1 stage), Wrote (step_marker 1 1 step)]"
      if "Stages flow = stage # srest \<and> Steps stage = step # rest'" for stage srest step rest' more
    proof -
      from es(4) that
      have t: "take 2 es = [Wrote (stage_marker 1 stage), Wrote (step_marker 1 1 step)]"
        by (simp add: stage_marker_def step_marker_def)
      then have "length (take 2 es) = 2" by simp
      then have "2 \<le> length es" by simp
      with t show ?thesis by simp
    qed
    have ld': "fst (LoadWorkflow r (path r) (Out r ?s w)) = Inr flow"
      using ld Inr by simp
    show ?thesis
    proof (cases r3)
      case None
      let ?d = "nl @ check_mark @ '' Workflow execution completed.'' @ nl"
      have o: "Runner_Run (observed r) ([], w)
          = (None, (Wrote ?s # Loaded (path r) # es @ [Wrote done_line], Out r ?d w3))"
        using ld Inr rs es(1) None by (simp add: Runner_Run_def start_line_def done_line_def)
      have p: "Runner_Run r w = (None, Out r ?d w3)"
        using ld Inr es(5) None by (simp add: Runner_Run_def start_line_def)
      have c: "prefix (calls (es @ [Wrote done_line])) (workflow_calls flow)"
        using es(2) by (simp add: workflow_calls_def)
      have e: "es @ [Wrote done_line] = stages_events 0 (Stages flow) @ [Wrote done_line]"
        using es(3) None by simp
      show ?thesis
        apply (rule exI[of _ "es @ [Wrote done_line]"])
        apply (simp only: o p ld' fst_conv snd_conv sum.case)
        using c e mk[of _ _ _ _ "[Wrote done_line]"] apply blast
        done
    next
      case (Some e)
      have o: "Runner_Run (observed r) ([], w) = (Some e, (Wrote ?s # Loaded (path r) # es, w3))"
        using ld Inr rs es(1) Some by (simp add: Runner_Run_def start_line_def)
      have p: "Runner_Run r w = (Some e, w3)"
        using ld Inr es(5) Some by (simp add: Runner_Run_def start_line_def)
      have c: "prefix (calls es) (workflow_calls flow)"
        using es(2) by (simp add: workflow_calls_def)
      show ?thesis
        apply (rule exI[of _ es])
        apply (simp only: o p ld' fst_conv snd_conv sum.case)
        using c mk[of _ _ _ _ "[]"] apply simp
        done
    qed
  qed
qed

lemma Run_log_shape:
  obtains rest where "Run_log r w = Wrote (start_line (path r)) # Loaded (path r) # rest"
    and "\<And>err. fst (LoadWorkflow r (path r) (Out r (start_line (path r)) w)) = Inl err
            \<Longrightarrow> rest = [] \<and> fst (Runner_Run r w) = Some err"
    and "\<And>flow. fst (LoadWorkflow r (path r) (Out r (start_line (path r)) w)) = Inr flow
            \<Longrightarrow> prefix (calls rest) (workflow_calls flow)"
    and "\<And>flow. fst (LoadWorkflow r (path r) (Out r (start_line (path r)) w)) = Inr flow
            \<Longrightarrow> fst (Runner_Run r w) = None \<Longrightarrow> rest = stages_events 0 (Stages flow) @ [Wrote done_line]"
    and "\<And>flow stage srest step rest'. fst (LoadWorkflow r (path r) (Out r (start_line (path r)) w)) = Inr flow
            \<Longrightarrow> Stages flow = stage # srest \<Longrightarrow> Steps stage = step # rest'
            \<Longrightarrow> take 2 rest = [Wrote (stage_marker 1 stage), Wrote (step_marker 1 1 step)]"
proof -
  from Runner_Run_observed[of r w] obtain rest where
    run: "Runner_Run (observed r) ([], w)
       = (fst (Runner_Run r w), (Wrote (start_line (path r)) # Loaded (path r) # rest, snd (Runner_Run r w)))"
    and c: "case fst (LoadWorkflow r (path r) (Out r (start_line (path r)) w)) of
         Inl err \<Rightarrow> rest = [] \<and> fst (Runner_Run r w) = Some err
       | Inr flow \<Rightarrow>
           prefix (calls rest) (workflow_calls flow)
           \<and> (fst (Runner_Run r w) = None \<longrightarrow> rest = stages_events 0 (Stages flow) @ [Wrote done_line])
           \<and> (\<forall>stage srest step rest'. Stages flow = stage # srest \<and> Steps stage = step # rest' \<longrightarrow>
                 take 2 rest = [Wrote (stage_marker 1 stage), Wrote (step_marker 1 1 step)])"
    by blast
  show thesis
  proof (rule that[of rest])
    show "Run_log r w = Wrote (start_line (path r)) # Loaded (path r) # rest"
      using run by (simp add: Run_log_def)
  qed (use c in \<open>auto split: sum.splits\<close>)
qed


text \<open>A run cannot fail when no command fails and every tag is known.\<close>

lemma run_steps_ok:
  assumes "\<forall>argv v. fst (RunCmd r argv v) = None"
    and "\<forall>s \<in> set steps. Type s = StepTypeExec \<or> Type s = StepTypeSleep"
  shows "fst (run_steps r si stage i steps w) = None"
  using assms(2)
proof (induction steps arbitrary: i w)
  case Nil
  then show ?case by simp
next
  case (Cons step rest)
  let ?w1 = "Out r (''STEP '' @ fmt_d (int si + 1) @ ''.'' @ fmt_d (int i + 1) @ '': ''
                      @ Step.Name step @ '' ('' @ Type step @ '')'' @ nl) w"
  from Cons.prems have known: "Type step = StepTypeExec \<or> Type step = StepTypeSleep" by simp
  have "fst (RunCmd r (Step.Run step) ?w1) = None" using assms(1) by blast
  with known have "fst (executeStep r step ?w1) = None"
    by (auto simp: executeStep_def Let_def split: prod.splits option.splits)
  then obtain w2 where "executeStep r step ?w1 = (None, w2)"
    by (metis prod.collapse)
  with Cons show ?case by simp
qed

lemma run_stages_ok:
  assumes "\<forall>argv v. fst (RunCmd r argv v) = None"
    and "\<forall>stage \<in> set stages. \<forall>s \<in> set (Steps stage). Type s = StepTypeExec \<or> Type s = StepTypeSleep"
  shows "fst (run_stages r si stages w) = None"
  using assms(2)
proof (induction stages arbitrary: si w)
  case Nil
  then show ?case by simp
next
  case (Cons stage rest)
  let ?w1 = "Out r (nl @ ''=== STAGE '' @ fmt_d (int si + 1) @ '': '' @ Stage.Name stage
                      @ '' ==='' @ nl) w"
  from Cons.prems have "\<forall>s \<in> set (Steps stage). Type s = StepTypeExec \<or> Type s = StepTypeSleep"
    by simp
  from run_steps_ok[OF assms(1) this, of si stage 0 ?w1]
  obtain w2 where "run_steps r si stage 0 (Steps stage) ?w1 = (None, w2)"
    by (metis prod.collapse)
  with Cons show ?case by simp
qed

lemma Runner_Run_ok:
  assumes "\<forall>argv v. fst (RunCmd r argv v) = None"
    and "fst (LoadWorkflow r (path r) (Out r (start_line (path r)) w)) = Inr flow"
    and "Workflow_Validate flow = None"
  shows "fst (Runner_Run r w) = None"
proof -
  from assms(3) have "workflow_invariants flow"
    by (simp add: Workflow_Validate_def validate_stages_None_iff Stage_Validate_None_iff
        workflow_invariants_def split: if_splits)
  then have known: "\<forall>stage \<in> set (Stages flow). \<forall>s \<in> set (Steps stage).
      Type s = StepTypeExec \<or> Type s = StepTypeSleep"
    by (simp add: workflow_invariants_def stage_invariants_def step_invariants_def)
  obtain w2 where ld: "LoadWorkflow r (path r) (Out r (start_line (path r)) w) = (Inr flow, w2)"
    using assms(2) by (metis prod.collapse)
  from run_stages_ok[OF assms(1) known, of 0 w2]
  obtain w3 where "run_stages r 0 (Stages flow) w2 = (None, w3)"
    by (metis prod.collapse)
  with ld show ?thesis
    by (simp add: Runner_Run_def start_line_def)
qed

section \<open>The invocations of a run and the steps they serve\<close>












section \<open>Properties of the dry run\<close>

lemma dry_steps_observed:
  "dry_steps (observed r) si i steps (l, w) = (l @ dry_steps_events si i steps, dry_steps r si i steps w)"
  by (induction steps arbitrary: i l w) (simp_all add: Let_def dry_step_events_def)

lemma dry_stages_observed:
  "dry_stages (observed r) si stages (l, w) = (l @ dry_stages_events si stages, dry_stages r si stages w)"
  by (induction stages arbitrary: si l w) (simp_all add: Let_def dry_steps_observed)

lemma DryRun_log_eq:
  "DryRun_log r w =
     Wrote (dry_start_line (path r)) # Loaded (path r)
     # (case fst (LoadWorkflow r (path r) (Out r (dry_start_line (path r)) w)) of
          Inl err \<Rightarrow> []
        | Inr flow \<Rightarrow>
            dry_stages_events 0 (Stages flow)
            @ [Wrote (nl @ ''[DRY-RUN] '' @ check_mark @ '' Workflow simulation completed.'' @ nl)])"
  by (simp add: DryRun_log_def Runner_DryRun_def Let_def dry_stages_observed dry_start_line_def
      split: prod.splits sum.splits)

lemma Runner_DryRun_result:
  "fst (Runner_DryRun r w) =
     (case fst (LoadWorkflow r (path r) (Out r (dry_start_line (path r)) w)) of
        Inl err \<Rightarrow> Some err | Inr flow \<Rightarrow> None)"
  by (simp add: Runner_DryRun_def Let_def dry_start_line_def split: prod.splits sum.splits)

lemma calls_dry_steps_events: "calls (dry_steps_events si i steps) = []"
  by (induction steps arbitrary: i) (simp_all add: dry_step_events_def)

lemma calls_dry_stages_events: "calls (dry_stages_events si stages) = []"
  by (induction stages arbitrary: si) (simp_all add: calls_dry_steps_events)

lemma step_lines_dry_steps_events:
  "length (filter is_step_line (written (dry_steps_events si i steps))) = length steps"
  by (induction steps arbitrary: i) (simp_all add: dry_step_events_def is_step_line_def)

lemma step_lines_dry_stages_events:
  "length (filter is_step_line (written (dry_stages_events si stages)))
     = sum_list (map (\<lambda>stage. length (Steps stage)) stages)"
  by (induction stages arbitrary: si) (simp_all add: step_lines_dry_steps_events is_step_line_def nl_def)

lemma dry_steps_ignores_capabilities:
  "dry_steps (r\<lparr>RunCmd := c, Sleep := d\<rparr>) si i steps w = dry_steps r si i steps w"
  by (induction steps arbitrary: i w) (simp_all add: Let_def)

lemma dry_stages_ignores_capabilities:
  "dry_stages (r\<lparr>RunCmd := c, Sleep := d\<rparr>) si stages w = dry_stages r si stages w"
  by (induction stages arbitrary: si w) (simp_all add: Let_def dry_steps_ignores_capabilities)

text \<open>
  C4.  Whatever the workflow holds, a dry run invokes neither the command runner nor the
  delay (its log has no such call, and its outcome does not depend on either
  capability); it returns an error exactly when the loader does, and then the loader's
  own; and it writes one step marker line for every step of the loaded workflow.
\<close>

theorem dry_run_invokes_no_capability:
  "calls (DryRun_log r w) = [] \<and>
   Runner_DryRun (r\<lparr>RunCmd := c, Sleep := d\<rparr>) w = Runner_DryRun r w \<and>
   fst (Runner_DryRun r w) =
     (case fst (LoadWorkflow r (path r) (Out r (dry_start_line (path r)) w)) of
        Inl err \<Rightarrow> Some err | Inr flow \<Rightarrow> None) \<and>
   (\<forall>flow. fst (LoadWorkflow r (path r) (Out r (dry_start_line (path r)) w)) = Inr flow \<longrightarrow>
      length (filter is_step_line (written (DryRun_log r w)))
        = sum_list (map (\<lambda>stage. length (Steps stage)) (Stages flow)))"
proof (intro conjI allI impI)
  show "calls (DryRun_log r w) = []"
    by (simp add: DryRun_log_eq calls_dry_stages_events split: sum.splits)
  show "Runner_DryRun (r\<lparr>RunCmd := c, Sleep := d\<rparr>) w = Runner_DryRun r w"
    by (simp add: Runner_DryRun_def Let_def dry_stages_ignores_capabilities split: prod.splits sum.splits)
  show "fst (Runner_DryRun r w) =
     (case fst (LoadWorkflow r (path r) (Out r (dry_start_line (path r)) w)) of
        Inl err \<Rightarrow> Some err | Inr flow \<Rightarrow> None)"
    by (rule Runner_DryRun_result)
  fix flow
  assume "fst (LoadWorkflow r (path r) (Out r (dry_start_line (path r)) w)) = Inr flow"
  then show "length (filter is_step_line (written (DryRun_log r w)))
        = sum_list (map (\<lambda>stage. length (Steps stage)) (Stages flow))"
    by (simp add: DryRun_log_eq step_lines_dry_stages_events is_step_line_def dry_start_line_def nl_def)
qed

theorem dry_run_invokes_no_capability_witness:
  "calls (DryRun_log (mock ''test-workflow.yaml'' (Inr example_workflow) (\<lambda>argv. Some (New ''boom''))) ()) = [] \<and>
   fst (Runner_DryRun (mock ''test-workflow.yaml'' (Inr example_workflow) (\<lambda>argv. Some (New ''boom''))) ()) = None \<and>
   length (filter is_step_line
     (written (DryRun_log (mock ''test-workflow.yaml'' (Inr example_workflow) (\<lambda>argv. Some (New ''boom''))) ()))) = 3"
proof -
  let ?r = "mock ''test-workflow.yaml'' (Inr example_workflow) (\<lambda>argv. Some (New ''boom''))"
  have ld: "fst (LoadWorkflow ?r (path ?r) (Out ?r (dry_start_line (path ?r)) ())) = Inr example_workflow"
    by (simp add: mock_def)
  have n: "sum_list (map (\<lambda>stage. length (Steps stage)) (Stages example_workflow)) = 3"
    by (simp add: example_workflow_def)
  from dry_run_invokes_no_capability [of ?r "()"] ld n
  show ?thesis by simp
qed

text \<open>
  C8.  Both entry points write their start marker, naming the source, and only then call
  the loader: these are always the first two events.  When the loader fails its error
  is returned and nothing else was written.
\<close>

theorem start_marker_precedes_loading:
  "(\<exists>rest. Run_log r w = Wrote (start_line (path r)) # Loaded (path r) # rest \<and>
      (\<forall>err. fst (LoadWorkflow r (path r) (Out r (start_line (path r)) w)) = Inl err
         \<longrightarrow> rest = [] \<and> fst (Runner_Run r w) = Some err)) \<and>
   (\<exists>rest. DryRun_log r w = Wrote (dry_start_line (path r)) # Loaded (path r) # rest \<and>
      (\<forall>err. fst (LoadWorkflow r (path r) (Out r (dry_start_line (path r)) w)) = Inl err
         \<longrightarrow> rest = [] \<and> fst (Runner_DryRun r w) = Some err))"
proof
  obtain rest where "Run_log r w = Wrote (start_line (path r)) # Loaded (path r) # rest"
    and "\<And>err. fst (LoadWorkflow r (path r) (Out r (start_line (path r)) w)) = Inl err
            \<Longrightarrow> rest = [] \<and> fst (Runner_Run r w) = Some err"
    by (rule Run_log_shape[of r w]) blast
  then show "\<exists>rest. Run_log r w = Wrote (start_line (path r)) # Loaded (path r) # rest \<and>
      (\<forall>err. fst (LoadWorkflow r (path r) (Out r (start_line (path r)) w)) = Inl err
         \<longrightarrow> rest = [] \<and> fst (Runner_Run r w) = Some err)"
    by blast
  show "\<exists>rest. DryRun_log r w = Wrote (dry_start_line (path r)) # Loaded (path r) # rest \<and>
      (\<forall>err. fst (LoadWorkflow r (path r) (Out r (dry_start_line (path r)) w)) = Inl err
         \<longrightarrow> rest = [] \<and> fst (Runner_DryRun r w) = Some err)"
    by (auto simp: DryRun_log_eq Runner_DryRun_result)
qed

theorem start_marker_precedes_loading_witness:
  "Run_log (mock ''wf.yaml'' (Inl (New ''load failed'')) (\<lambda>argv. None)) ()
     = [Wrote (''Executing workflow: wf.yaml'' @ nl), Loaded ''wf.yaml''] \<and>
   fst (Runner_Run (mock ''wf.yaml'' (Inl (New ''load failed'')) (\<lambda>argv. None)) ()) = Some (New ''load failed'') \<and>
   DryRun_log (mock ''wf.yaml'' (Inl (New ''load failed'')) (\<lambda>argv. None)) ()
     = [Wrote (''[DRY-RUN] Would execute workflow: wf.yaml'' @ nl), Loaded ''wf.yaml''] \<and>
   fst (Runner_DryRun (mock ''wf.yaml'' (Inl (New ''load failed'')) (\<lambda>argv. None)) ()) = Some (New ''load failed'')"
proof -
  let ?r = "mock ''wf.yaml'' (Inl (New ''load failed'')) (\<lambda>argv. None)"
  have ld: "fst (LoadWorkflow ?r (path ?r) (Out ?r (start_line (path ?r)) ())) = Inl (New ''load failed'')"
    "fst (LoadWorkflow ?r (path ?r) (Out ?r (dry_start_line (path ?r)) ())) = Inl (New ''load failed'')"
    "path ?r = ''wf.yaml''"
    by (simp_all add: mock_def)
  from start_marker_precedes_loading [of ?r "()"] ld
  show ?thesis by (auto simp: start_line_def dry_start_line_def)
qed

section \<open>The trace of a run\<close>

lemma written_steps_events:
  "written (steps_events si i steps) =
     concat (map (\<lambda>(j, step). step_marker (Suc si) (Suc j) step
                    # (if Type step = StepTypeSleep then [sleep_notice step] else []))
              (enumerate i steps))"
  by (induction steps arbitrary: i)
    (simp_all add: step_events_def step_marker_def sleep_notice_def add.commute
      StepTypeExec_def StepTypeSleep_def)

lemma written_stages_events:
  "written (stages_events si stages) =
     concat (map (\<lambda>(i, stage).
                  stage_marker (Suc i) stage
                  # concat (map (\<lambda>(j, step).
                               step_marker (Suc i) (Suc j) step
                               # (if Type step = StepTypeSleep then [sleep_notice step] else []))
                             (enumerate 0 (Steps stage)))
                  @ [stage_done_line (Suc i)])
                (enumerate si stages))"
  by (induction stages arbitrary: si)
    (simp_all add: written_steps_events stage_marker_def stage_done_line_def add.commute)

lemma subseq_concat_map:
  "(\<And>x. x \<in> set xs \<Longrightarrow> subseq (f x) (g x)) \<Longrightarrow> subseq (concat (map f xs)) (concat (map g xs))"
  by (induction xs) (simp_all add: list_emb_append_mono)

lemma subseq_step_markers:
  "subseq (map (\<lambda>(j, step). step_marker n (Suc j) step) es)
          (concat (map (\<lambda>(j, step). step_marker n (Suc j) step
                          # (if Type step = StepTypeSleep then [sleep_notice step] else [])) es))"
  by (induction es) auto

lemma subseq_trace_markers: "subseq (trace_markers p flow) (run_trace p flow)"
proof -
  have "subseq
      (concat (map (\<lambda>(i, stage).
                  stage_marker (Suc i) stage
                  # map (\<lambda>(j, step). step_marker (Suc i) (Suc j) step) (enumerate 0 (Steps stage)))
                (enumerate 0 (Stages flow))))
      (concat (map (\<lambda>(i, stage).
                  stage_marker (Suc i) stage
                  # concat (map (\<lambda>(j, step).
                               step_marker (Suc i) (Suc j) step
                               # (if Type step = StepTypeSleep then [sleep_notice step] else []))
                             (enumerate 0 (Steps stage)))
                  @ [stage_done_line (Suc i)])
                (enumerate 0 (Stages flow))))"
  proof (rule subseq_concat_map)
    fix x :: "nat \<times> Stage"
    obtain i stage where x: "x = (i, stage)" by (cases x)
    have "subseq (map (\<lambda>(j, step). step_marker (Suc i) (Suc j) step) (enumerate 0 (Steps stage)))
        (concat (map (\<lambda>(j, step). step_marker (Suc i) (Suc j) step
                          # (if Type step = StepTypeSleep then [sleep_notice step] else []))
                  (enumerate 0 (Steps stage))) @ [stage_done_line (Suc i)])"
      by (rule list_emb_prefix) (rule subseq_step_markers)
    then show "subseq
        (case x of (i, stage) \<Rightarrow>
           stage_marker (Suc i) stage
           # map (\<lambda>(j, step). step_marker (Suc i) (Suc j) step) (enumerate 0 (Steps stage)))
        (case x of (i, stage) \<Rightarrow>
           stage_marker (Suc i) stage
           # concat (map (\<lambda>(j, step).
                               step_marker (Suc i) (Suc j) step
                               # (if Type step = StepTypeSleep then [sleep_notice step] else []))
                             (enumerate 0 (Steps stage)))
           @ [stage_done_line (Suc i)])"
      by (simp add: x)
  qed
  then show ?thesis
    by (simp add: trace_markers_def run_trace_def)
qed

lemma written_Run_log_ok:
  assumes "fst (LoadWorkflow r (path r) (Out r (start_line (path r)) w)) = Inr flow"
    and "fst (Runner_Run r w) = None"
  shows "written (Run_log r w) = run_trace (path r) flow"
proof -
  obtain rest where "Run_log r w = Wrote (start_line (path r)) # Loaded (path r) # rest"
    and "\<And>flow. fst (LoadWorkflow r (path r) (Out r (start_line (path r)) w)) = Inr flow
            \<Longrightarrow> fst (Runner_Run r w) = None \<Longrightarrow> rest = stages_events 0 (Stages flow) @ [Wrote done_line]"
    by (rule Run_log_shape[of r w]) blast
  with assms show ?thesis
    by (simp add: run_trace_def written_stages_events)
qed


lemmas trace_simps =
  run_trace_def trace_markers_def start_line_def done_line_def stage_marker_def stage_done_line_def
  step_marker_def sleep_notice_def

text \<open>
  C7.  When the loader returns a workflow and the run returns no error, the lines written
  are, in order: the start marker naming the source; for each stage in declared order
  its stage-start marker with the stage's number counted from one and its name, then
  one step marker per step with the stage and step numbers, name and type (a sleep
  step's marker being followed by its notice), then the stage-completed line; and last
  the completion marker.  So the markers of the specification appear in this order.
  For the two-stage example the lines are those listed, with \<open>STAGE 1: build\<close> before
  \<open>STAGE 2: test\<close> before the completion marker.
\<close>

theorem run_trace_on_success:
  "(fst (LoadWorkflow r (path r) (Out r (start_line (path r)) w)) = Inr flow \<and>
    fst (Runner_Run r w) = None
      \<longrightarrow> written (Run_log r w) = run_trace (path r) flow \<and>
          subseq (trace_markers (path r) flow) (written (Run_log r w))) \<and>
   written (Run_log (mock ''test-workflow.yaml'' (Inr example_workflow) (\<lambda>argv. None)) ()) =
     [''Executing workflow: test-workflow.yaml'' @ nl,
      nl @ ''=== STAGE 1: build ==='' @ nl,
      ''STEP 1.1: compile (exec)'' @ nl,
      ''STEP 1.2: wait (sleep)'' @ nl,
      ''  Sleeping for 2 seconds...'' @ nl,
      ''=== STAGE 1 COMPLETED ==='' @ nl,
      nl @ ''=== STAGE 2: test ==='' @ nl,
      ''STEP 2.1: run-tests (exec)'' @ nl,
      ''=== STAGE 2 COMPLETED ==='' @ nl,
      nl @ check_mark @ '' Workflow execution completed.'' @ nl]"
proof (intro conjI impI)
  assume h: "fst (LoadWorkflow r (path r) (Out r (start_line (path r)) w)) = Inr flow \<and>
    fst (Runner_Run r w) = None"
  then show eq: "written (Run_log r w) = run_trace (path r) flow"
    by (intro written_Run_log_ok) simp_all
  show "subseq (trace_markers (path r) flow) (written (Run_log r w))"
    unfolding eq by (rule subseq_trace_markers)
next
  let ?r = "mock ''test-workflow.yaml'' (Inr example_workflow) (\<lambda>argv. None)"
  have ld: "fst (LoadWorkflow ?r (path ?r) (Out ?r (start_line (path ?r)) ())) = Inr example_workflow"
    by (simp add: mock_def)
  have "\<forall>argv v. fst (RunCmd ?r argv v) = None"
    by (simp add: mock_def)
  moreover have "Workflow_Validate example_workflow = None"
    by (simp add: example_workflow_def eval_simps)
  ultimately have ok: "fst (Runner_Run ?r ()) = None"
    using ld by (intro Runner_Run_ok)
  have p: "path ?r = ''test-workflow.yaml''"
    by (simp add: mock_def)
  have "written (Run_log ?r ()) = run_trace (path ?r) example_workflow"
    using ld ok by (rule written_Run_log_ok)
  also have "\<dots> = [''Executing workflow: test-workflow.yaml'' @ nl,
      nl @ ''=== STAGE 1: build ==='' @ nl,
      ''STEP 1.1: compile (exec)'' @ nl,
      ''STEP 1.2: wait (sleep)'' @ nl,
      ''  Sleeping for 2 seconds...'' @ nl,
      ''=== STAGE 1 COMPLETED ==='' @ nl,
      nl @ ''=== STAGE 2: test ==='' @ nl,
      ''STEP 2.1: run-tests (exec)'' @ nl,
      ''=== STAGE 2 COMPLETED ==='' @ nl,
      nl @ check_mark @ '' Workflow execution completed.'' @ nl]"
    unfolding p by (simp add: trace_simps example_workflow_def eval_simps)
  finally show "written (Run_log ?r ()) = [''Executing workflow: test-workflow.yaml'' @ nl,
      nl @ ''=== STAGE 1: build ==='' @ nl,
      ''STEP 1.1: compile (exec)'' @ nl,
      ''STEP 1.2: wait (sleep)'' @ nl,
      ''  Sleeping for 2 seconds...'' @ nl,
      ''=== STAGE 1 COMPLETED ==='' @ nl,
      nl @ ''=== STAGE 2: test ==='' @ nl,
      ''STEP 2.1: run-tests (exec)'' @ nl,
      ''=== STAGE 2 COMPLETED ==='' @ nl,
      nl @ check_mark @ '' Workflow execution completed.'' @ nl]" .
qed

theorem run_trace_on_success_witness:
  "written (Run_log (mock ''test.yaml'' (Inr three_stages) (\<lambda>argv. None)) ()) =
     [''Executing workflow: test.yaml'' @ nl,
      nl @ ''=== STAGE 1: stage1 ==='' @ nl,
      ''STEP 1.1: step1 (exec)'' @ nl,
      ''=== STAGE 1 COMPLETED ==='' @ nl,
      nl @ ''=== STAGE 2: stage2 ==='' @ nl,
      ''STEP 2.1: step2 (exec)'' @ nl,
      ''=== STAGE 2 COMPLETED ==='' @ nl,
      nl @ ''=== STAGE 3: stage3 ==='' @ nl,
      ''STEP 3.1: step3 (exec)'' @ nl,
      ''=== STAGE 3 COMPLETED ==='' @ nl,
      nl @ check_mark @ '' Workflow execution completed.'' @ nl] \<and>
   subseq
     [''Executing workflow: test.yaml'' @ nl,
      nl @ ''=== STAGE 1: stage1 ==='' @ nl,
      ''STEP 1.1: step1 (exec)'' @ nl,
      nl @ ''=== STAGE 2: stage2 ==='' @ nl,
      ''STEP 2.1: step2 (exec)'' @ nl,
      nl @ ''=== STAGE 3: stage3 ==='' @ nl,
      ''STEP 3.1: step3 (exec)'' @ nl,
      nl @ check_mark @ '' Workflow execution completed.'' @ nl]
     (written (Run_log (mock ''test.yaml'' (Inr three_stages) (\<lambda>argv. None)) ()))"
proof -
  let ?r = "mock ''test.yaml'' (Inr three_stages) (\<lambda>argv. None)"
  have ld: "fst (LoadWorkflow ?r (path ?r) (Out ?r (start_line (path ?r)) ())) = Inr three_stages"
    by (simp add: mock_def)
  have "\<forall>argv v. fst (RunCmd ?r argv v) = None"
    by (simp add: mock_def)
  moreover have "Workflow_Validate three_stages = None"
    by (simp add: three_stages_def eval_simps)
  ultimately have ok: "fst (Runner_Run ?r ()) = None"
    using ld by (intro Runner_Run_ok)
  have p: "path ?r = ''test.yaml''"
    by (simp add: mock_def)
  have t: "run_trace ''test.yaml'' three_stages =
     [''Executing workflow: test.yaml'' @ nl,
      nl @ ''=== STAGE 1: stage1 ==='' @ nl,
      ''STEP 1.1: step1 (exec)'' @ nl,
      ''=== STAGE 1 COMPLETED ==='' @ nl,
      nl @ ''=== STAGE 2: stage2 ==='' @ nl,
      ''STEP 2.1: step2 (exec)'' @ nl,
      ''=== STAGE 2 COMPLETED ==='' @ nl,
      nl @ ''=== STAGE 3: stage3 ==='' @ nl,
      ''STEP 3.1: step3 (exec)'' @ nl,
      ''=== STAGE 3 COMPLETED ==='' @ nl,
      nl @ check_mark @ '' Workflow execution completed.'' @ nl]"
    by (simp add: trace_simps three_stages_def eval_simps)
  have m: "trace_markers ''test.yaml'' three_stages =
     [''Executing workflow: test.yaml'' @ nl,
      nl @ ''=== STAGE 1: stage1 ==='' @ nl,
      ''STEP 1.1: step1 (exec)'' @ nl,
      nl @ ''=== STAGE 2: stage2 ==='' @ nl,
      ''STEP 2.1: step2 (exec)'' @ nl,
      nl @ ''=== STAGE 3: stage3 ==='' @ nl,
      ''STEP 3.1: step3 (exec)'' @ nl,
      nl @ check_mark @ '' Workflow execution completed.'' @ nl]"
    by (simp add: trace_simps three_stages_def eval_simps)
  from run_trace_on_success [of ?r "()" three_stages] ld ok
  have "written (Run_log ?r ()) = run_trace ''test.yaml'' three_stages \<and>
          subseq (trace_markers ''test.yaml'' three_stages) (written (Run_log ?r ()))"
    unfolding p by blast
  then show ?thesis
    unfolding t m by blast
qed

section \<open>Aborting a run\<close>

lemma run_steps_append:
  "run_steps r si stage i (pre @ post) w =
     (case run_steps r si stage i pre w of
        (Some err, w') \<Rightarrow> (Some err, w')
      | (None, w') \<Rightarrow> run_steps r si stage (i + length pre) post w')"
  by (induction pre arbitrary: i w) (auto simp: Let_def split: prod.splits option.splits)

lemma run_stages_append:
  "run_stages r si (pre @ post) w =
     (case run_stages r si pre w of
        (Some err, w') \<Rightarrow> (Some err, w')
      | (None, w') \<Rightarrow> run_stages r (si + length pre) post w')"
  by (induction pre arbitrary: si w) (auto simp: Let_def split: prod.splits option.splits)

text \<open>
  A step that fails after everything before it went well decides the result of the
  run, and the world is left as that step left it.
\<close>

lemma Runner_Run_abort:
  assumes load: "LoadWorkflow r (path r) (Out r (start_line (path r)) w) = (Inr flow, w2)"
    and stages: "Stages flow = pre_stages @ stage # post_stages"
    and steps: "Steps stage = pre_steps @ step # post_steps"
    and before: "run_stages r 0 pre_stages w2 = (None, w3)"
    and within: "run_steps r (length pre_stages) stage 0 pre_steps
                   (Out r (stage_marker (Suc (length pre_stages)) stage) w3) = (None, w4)"
    and fails: "executeStep r step
                  (Out r (step_marker (Suc (length pre_stages)) (Suc (length pre_steps)) step) w4)
                = (Some e, w5)"
  shows "Runner_Run r w =
     (Some (Wrap (''stage '' @ sq @ Stage.Name stage @ sq @ '', step '' @ sq @ Step.Name step @ sq
                          @ '': '' @ Error e) e), w5)"
proof -
  let ?res = "(Some (Wrap (''stage '' @ sq @ Stage.Name stage @ sq @ '', step '' @ sq @ Step.Name step @ sq
                          @ '': '' @ Error e) e), w5)"
  have "run_steps r (length pre_stages) stage (length pre_steps) (step # post_steps) w4 = ?res"
    using fails by (simp add: step_marker_def add.commute)
  then have "run_steps r (length pre_stages) stage 0 (pre_steps @ step # post_steps)
       (Out r (stage_marker (Suc (length pre_stages)) stage) w3) = ?res"
    using within by (simp add: run_steps_append)
  then have "run_stages r (length pre_stages) (stage # post_stages) w3 = ?res"
    using steps by (simp add: stage_marker_def add.commute)
  then have "run_stages r 0 (Stages flow) w2 = ?res"
    using before stages by (simp add: run_stages_append)
  then show ?thesis
    using load by (simp add: Runner_Run_def start_line_def)
qed

lemma run_steps_observed_None:
  assumes "run_steps r si stage i steps w = (None, w')"
  shows "run_steps (observed r) si stage i steps (l, w) = (None, (l @ steps_events si i steps, w'))"
proof -
  obtain res l' w'' where o: "run_steps (observed r) si stage i steps (l, w) = (res, (l', w''))"
    by (metis prod.exhaust)
  from run_steps_observed[OF o] assms o show ?thesis by auto
qed

lemma run_stages_observed_None:
  assumes "run_stages r si stages w = (None, w')"
  shows "run_stages (observed r) si stages (l, w) = (None, (l @ stages_events si stages, w'))"
proof -
  obtain res l' w'' where o: "run_stages (observed r) si stages (l, w) = (res, (l', w''))"
    by (metis prod.exhaust)
  from run_stages_observed[OF o] assms o show ?thesis by auto
qed

text \<open>The same under observation: the log ends with what the failing step did.\<close>

lemma Run_log_abort:
  assumes load: "LoadWorkflow r (path r) (Out r (start_line (path r)) w) = (Inr flow, w2)"
    and stages: "Stages flow = pre_stages @ stage # post_stages"
    and steps: "Steps stage = pre_steps @ step # post_steps"
    and before: "run_stages r 0 pre_stages w2 = (None, w3)"
    and within: "run_steps r (length pre_stages) stage 0 pre_steps
                   (Out r (stage_marker (Suc (length pre_stages)) stage) w3) = (None, w4)"
    and fails: "executeStep (observed r) step
                  (l4 @ [Wrote (step_marker (Suc (length pre_stages)) (Suc (length pre_steps)) step)],
                   Out r (step_marker (Suc (length pre_stages)) (Suc (length pre_steps)) step) w4)
                = (Some e, (l5, w5))"
    and l4: "l4 = Wrote (start_line (path r)) # Loaded (path r) # stages_events 0 pre_stages
                  @ Wrote (stage_marker (Suc (length pre_stages)) stage)
                  # steps_events (length pre_stages) 0 pre_steps"
  shows "Run_log r w = l5"
proof -
  have "Runner_Run (observed r) ([], w) =
     (Some (Wrap (''stage '' @ sq @ Stage.Name stage @ sq @ '', step '' @ sq @ Step.Name step @ sq
                          @ '': '' @ Error e) e), (l5, w5))"
  proof (rule Runner_Run_abort[where pre_stages = pre_stages and pre_steps = pre_steps
        and post_stages = post_stages and post_steps = post_steps and flow = flow])
    show "LoadWorkflow (observed r) (path (observed r))
        (Out (observed r) (start_line (path (observed r))) ([], w))
        = (Inr flow, ([Wrote (start_line (path r)), Loaded (path r)], w2))"
      using load by simp
    show "Stages flow = pre_stages @ stage # post_stages" by (rule stages)
    show "Steps stage = pre_steps @ step # post_steps" by (rule steps)
    show "run_stages (observed r) 0 pre_stages ([Wrote (start_line (path r)), Loaded (path r)], w2)
        = (None, ([Wrote (start_line (path r)), Loaded (path r)] @ stages_events 0 pre_stages, w3))"
      using before by (rule run_stages_observed_None)
    show "run_steps (observed r) (length pre_stages) stage 0 pre_steps
        (Out (observed r) (stage_marker (Suc (length pre_stages)) stage)
           ([Wrote (start_line (path r)), Loaded (path r)] @ stages_events 0 pre_stages, w3))
        = (None, (l4, w4))"
      using run_steps_observed_None[OF within] by (simp add: l4)
    show "executeStep (observed r) step
        (Out (observed r) (step_marker (Suc (length pre_stages)) (Suc (length pre_steps)) step) (l4, w4))
        = (Some e, (l5, w5))"
      using fails by simp
  qed
  then show ?thesis by (simp add: Run_log_def)
qed


lemmas run_simps =
  Runner_Run_def mock_def executeStep_def Let_def stage_marker_def step_marker_def start_line_def

text \<open>
  C2.  Let the loader return a workflow, let every stage before some stage and every step
  before some exec step of that stage run without error, and let the command runner
  fail on that step.  Then \<open>Run\<close> returns at once: its error wraps the runner's error
  and reads \<open>stage '<stage>', step '<step>': command execution failed: <cause>\<close>, the
  world is left as the failed command left it, the failed command is the last event
  of the log, and the capabilities invoked are those of the steps before it and this
  command, none of any later step or stage.
\<close>

theorem command_failure_aborts_run:
  assumes load: "LoadWorkflow r (path r) (Out r (start_line (path r)) w) = (Inr flow, w2)"
    and stages: "Stages flow = pre_stages @ stage # post_stages"
    and steps: "Steps stage = pre_steps @ step # post_steps"
    and before: "run_stages r 0 pre_stages w2 = (None, w3)"
    and within: "run_steps r (length pre_stages) stage 0 pre_steps
                   (Out r (stage_marker (Suc (length pre_stages)) stage) w3) = (None, w4)"
    and exec: "Type step = StepTypeExec"
    and fails: "RunCmd r (Step.Run step)
                  (Out r (step_marker (Suc (length pre_stages)) (Suc (length pre_steps)) step) w4)
                = (Some err, w5)"
  shows "Runner_Run r w =
           (Some (Wrap (''stage '' @ sq @ Stage.Name stage @ sq @ '', step '' @ sq @ Step.Name step @ sq
                        @ '': command execution failed: '' @ Error err)
                   (Wrap (''command execution failed: '' @ Error err) err)), w5) \<and>
         last (Run_log r w) = Ran (Step.Run step) \<and>
         calls (Run_log r w) = stages_calls pre_stages @ steps_calls pre_steps @ [Ran (Step.Run step)]"
proof -
  let ?m = "step_marker (Suc (length pre_stages)) (Suc (length pre_steps)) step"
  let ?l4 = "Wrote (start_line (path r)) # Loaded (path r) # stages_events 0 pre_stages
                  @ Wrote (stage_marker (Suc (length pre_stages)) stage)
                  # steps_events (length pre_stages) 0 pre_steps"
  let ?e = "Wrap (''command execution failed: '' @ Error err) err"
  have ex: "executeStep r step (Out r ?m w4) = (Some ?e, w5)"
    using exec fails by (simp add: executeStep_def)
  have exo: "executeStep (observed r) step (?l4 @ [Wrote ?m], Out r ?m w4)
      = (Some ?e, (?l4 @ [Wrote ?m, Ran (Step.Run step)], w5))"
    using exec fails by (simp add: executeStep_def)
  have res: "Runner_Run r w =
      (Some (Wrap (''stage '' @ sq @ Stage.Name stage @ sq @ '', step '' @ sq @ Step.Name step @ sq
                        @ '': '' @ Error ?e) ?e), w5)"
    using load stages steps before within ex by (rule Runner_Run_abort)
  have log: "Run_log r w = ?l4 @ [Wrote ?m, Ran (Step.Run step)]"
    using load stages steps before within exo by (rule Run_log_abort) simp
  have "calls (Run_log r w) = stages_calls pre_stages @ steps_calls pre_steps @ [Ran (Step.Run step)]"
    unfolding log by (simp add: calls_stages_events calls_steps_events)
  moreover have "last (Run_log r w) = Ran (Step.Run step)"
    unfolding log by simp
  ultimately show ?thesis
    using res by simp
qed

theorem command_failure_aborts_run_witness:
  "Runner_Run (mock ''test.yaml'' (Inr three_stages)
        (\<lambda>argv. if argv = [''cmd2''] then Some (New ''exit status 1'') else None)) () =
     (Some (Wrap (''stage '' @ sq @ ''stage2'' @ sq @ '', step '' @ sq @ ''step2'' @ sq
                  @ '': command execution failed: exit status 1'')
             (Wrap ''command execution failed: exit status 1'' (New ''exit status 1''))), ()) \<and>
   calls (Run_log (mock ''test.yaml'' (Inr three_stages)
        (\<lambda>argv. if argv = [''cmd2''] then Some (New ''exit status 1'') else None)) ())
     = [Ran [''cmd1''], Ran [''cmd2'']]"
proof -
  let ?r = "mock ''test.yaml'' (Inr three_stages)
        (\<lambda>argv. if argv = [''cmd2''] then Some (New ''exit status 1'') else None)"
  let ?s1 = "\<lparr> Stage.Name = ''stage1'',
            Steps = [\<lparr> Step.Name = ''step1'', Type = StepTypeExec, Run = [''cmd1''], Seconds = 0 \<rparr>] \<rparr>"
  let ?step2 = "\<lparr> Step.Name = ''step2'', Type = StepTypeExec, Run = [''cmd2''], Seconds = 0 \<rparr>"
  let ?s2 = "\<lparr> Stage.Name = ''stage2'', Steps = [?step2] \<rparr>"
  let ?s3 = "\<lparr> Stage.Name = ''stage3'',
            Steps = [\<lparr> Step.Name = ''step3'', Type = StepTypeExec, Run = [''cmd3''], Seconds = 0 \<rparr>] \<rparr>"
  have load: "LoadWorkflow ?r (path ?r) (Out ?r (start_line (path ?r)) ()) = (Inr three_stages, ())"
    by (simp add: mock_def)
  have stages: "Stages three_stages = [?s1] @ ?s2 # [?s3]"
    by (simp add: three_stages_def)
  have steps: "Steps ?s2 = [] @ ?step2 # []"
    by simp
  have before: "run_stages ?r 0 [?s1] () = (None, ())"
    by (simp add: run_simps StepTypeExec_def)
  have within: "run_steps ?r (length [?s1]) ?s2 0 [] (Out ?r (stage_marker (Suc (length [?s1])) ?s2) ()) = (None, ())"
    by (simp add: mock_def)
  have exec: "Type ?step2 = StepTypeExec"
    by simp
  have fails: "RunCmd ?r (Step.Run ?step2)
      (Out ?r (step_marker (Suc (length [?s1])) (Suc (length ([] :: Step list))) ?step2) ())
      = (Some (New ''exit status 1''), ())"
    by (simp add: mock_def)
  from command_failure_aborts_run [OF load stages steps before within exec fails]
  show ?thesis
    by (simp add: stages_calls_def steps_calls_def step_call_def StepTypeExec_def)
qed

text \<open>
  C6, as the code has it.  In \<open>Run\<close> a step whose tag is neither exec nor sleep is an
  error: \<open>executeStep\<close> returns \<open>unknown step type: <tag>\<close> and touches nothing, and
  the run stops there with that error wrapped in the names of the stage and the step,
  having invoked only the capabilities of the steps before it.
\<close>

theorem unknown_step_type_fails_run:
  assumes load: "LoadWorkflow r (path r) (Out r (start_line (path r)) w) = (Inr flow, w2)"
    and stages: "Stages flow = pre_stages @ stage # post_stages"
    and steps: "Steps stage = pre_steps @ step # post_steps"
    and before: "run_stages r 0 pre_stages w2 = (None, w3)"
    and within: "run_steps r (length pre_stages) stage 0 pre_steps
                   (Out r (stage_marker (Suc (length pre_stages)) stage) w3) = (None, w4)"
    and unknown: "Type step \<noteq> StepTypeExec \<and> Type step \<noteq> StepTypeSleep"
  shows "executeStep r step v = (Some (New (''unknown step type: '' @ Type step)), v) \<and>
         Runner_Run r w =
           (Some (Wrap (''stage '' @ sq @ Stage.Name stage @ sq @ '', step '' @ sq @ Step.Name step @ sq
                        @ '': unknown step type: '' @ Type step)
                   (New (''unknown step type: '' @ Type step))),
            Out r (step_marker (Suc (length pre_stages)) (Suc (length pre_steps)) step) w4) \<and>
         calls (Run_log r w) = stages_calls pre_stages @ steps_calls pre_steps"
proof -
  let ?m = "step_marker (Suc (length pre_stages)) (Suc (length pre_steps)) step"
  let ?l4 = "Wrote (start_line (path r)) # Loaded (path r) # stages_events 0 pre_stages
                  @ Wrote (stage_marker (Suc (length pre_stages)) stage)
                  # steps_events (length pre_stages) 0 pre_steps"
  let ?e = "New (''unknown step type: '' @ Type step)"
  have ex: "executeStep r step v = (Some ?e, v)" for r :: "'b Runner" and v
    using unknown by (simp add: executeStep_def)
  have res: "Runner_Run r w =
      (Some (Wrap (''stage '' @ sq @ Stage.Name stage @ sq @ '', step '' @ sq @ Step.Name step @ sq
                        @ '': '' @ Error ?e) ?e), Out r ?m w4)"
    using load stages steps before within ex by (rule Runner_Run_abort)
  have log: "Run_log r w = ?l4 @ [Wrote ?m]"
    using load stages steps before within ex by (rule Run_log_abort) simp
  have "calls (Run_log r w) = stages_calls pre_stages @ steps_calls pre_steps"
    unfolding log by (simp add: calls_stages_events calls_steps_events)
  then show ?thesis
    using res ex by simp
qed

theorem unknown_step_type_fails_run_witness:
  "Runner_Run unknown_runner () =
     (Some (Wrap (''stage '' @ sq @ ''stage1'' @ sq @ '', step '' @ sq @ ''unknown-step'' @ sq
                  @ '': unknown step type: unknown'')
             (New ''unknown step type: unknown'')), ()) \<and>
   calls (Run_log unknown_runner ()) = [Ran [''cmd1'']]"
proof -
  let ?step1 = "\<lparr> Step.Name = ''step1'', Type = StepTypeExec, Run = [''cmd1''], Seconds = 0 \<rparr>"
  let ?bad = "\<lparr> Step.Name = ''unknown-step'', Type = ''unknown'', Run = [], Seconds = 0 \<rparr>"
  let ?step3 = "\<lparr> Step.Name = ''step3'', Type = StepTypeExec, Run = [''cmd3''], Seconds = 0 \<rparr>"
  let ?s1 = "\<lparr> Stage.Name = ''stage1'', Steps = [?step1, ?bad, ?step3] \<rparr>"
  have load: "LoadWorkflow unknown_runner (path unknown_runner)
      (Out unknown_runner (start_line (path unknown_runner)) ()) = (Inr unknown_workflow, ())"
    by (simp add: unknown_runner_def mock_def)
  have stages: "Stages unknown_workflow = [] @ ?s1 # []"
    by (simp add: unknown_workflow_def)
  have steps: "Steps ?s1 = [?step1] @ ?bad # [?step3]"
    by simp
  have before: "run_stages unknown_runner 0 [] () = (None, ())"
    by simp
  have within: "run_steps unknown_runner (length ([] :: Stage list)) ?s1 0 [?step1]
      (Out unknown_runner (stage_marker (Suc (length ([] :: Stage list))) ?s1) ()) = (None, ())"
    by (simp add: unknown_runner_def run_simps StepTypeExec_def)
  have unknown: "Type ?bad \<noteq> StepTypeExec \<and> Type ?bad \<noteq> StepTypeSleep"
    by (simp add: StepTypeExec_def StepTypeSleep_def)
  from unknown_step_type_fails_run [OF load stages steps before within unknown]
  show ?thesis
    by (simp add: unknown_runner_def mock_def steps_calls_def step_call_def StepTypeExec_def)
qed

text \<open>
  C6 fails for \<open>DryRun\<close>: its switch has no default branch.  On the unvalidated workflow
  the step tagged \<open>unknown\<close> gets its step marker and nothing else, the step after it
  is simulated, and no error is returned.
\<close>

theorem dry_run_unknown_step_type_counterexample:
  "fst (Runner_DryRun unknown_runner ()) = None \<and>
   written (DryRun_log unknown_runner ()) =
     [''[DRY-RUN] Would execute workflow: wf.yaml'' @ nl,
      nl @ ''[DRY-RUN] === STAGE 1: stage1 ==='' @ nl,
      ''[DRY-RUN] STEP 1.1: step1 (exec)'' @ nl,
      ''[DRY-RUN]   Would execute command: [cmd1]'' @ nl,
      ''[DRY-RUN] STEP 1.2: unknown-step (unknown)'' @ nl,
      ''[DRY-RUN] STEP 1.3: step3 (exec)'' @ nl,
      ''[DRY-RUN]   Would execute command: [cmd3]'' @ nl,
      ''[DRY-RUN] === STAGE 1 COMPLETED ==='' @ nl,
      nl @ ''[DRY-RUN] '' @ check_mark @ '' Workflow simulation completed.'' @ nl]"
proof -
  have ld: "LoadWorkflow unknown_runner p v = (Inr unknown_workflow, v)"
    "path unknown_runner = ''wf.yaml''" for p v
    by (simp_all add: unknown_runner_def mock_def)
  show ?thesis
    by (simp add: Runner_DryRun_result DryRun_log_eq ld unknown_workflow_def dry_step_events_def
        dry_start_line_def eval_simps)
qed

section \<open>Numbering in errors and in traces\<close>

lemma step_marker_in_steps_events:
  "j < length steps \<Longrightarrow>
   Wrote (step_marker (Suc si) (Suc (i + j)) (steps ! j)) \<in> set (steps_events si i steps)"
proof (induction steps arbitrary: i j)
  case Nil
  then show ?case by simp
next
  case (Cons step rest)
  show ?case
  proof (cases j)
    case 0
    then show ?thesis by (simp add: step_events_def step_marker_def add.commute)
  next
    case (Suc j')
    with Cons.prems have "j' < length rest" by simp
    from Cons.IH[OF this, of "Suc i"] Suc show ?thesis by simp
  qed
qed

lemma markers_in_stages_events:
  "k < length stages \<Longrightarrow>
   Wrote (stage_marker (Suc (si + k)) (stages ! k)) \<in> set (stages_events si stages) \<and>
   (\<forall>j < length (Steps (stages ! k)).
      Wrote (step_marker (Suc (si + k)) (Suc j) (Steps (stages ! k) ! j)) \<in> set (stages_events si stages))"
proof (induction stages arbitrary: si k)
  case Nil
  then show ?case by simp
next
  case (Cons stage rest)
  show ?case
  proof (cases k)
    case 0
    then show ?thesis
      using step_marker_in_steps_events[of _ "Steps stage" si 0]
      by (simp add: stage_marker_def add.commute)
  next
    case (Suc k')
    with Cons.prems have "k' < length rest" by simp
    from Cons.IH[OF this, of "Suc si"] Suc show ?thesis by simp
  qed
qed

lemma dry_step_marker_in_steps_events:
  "j < length steps \<Longrightarrow>
   Wrote (dry_step_marker (Suc si) (Suc (i + j)) (steps ! j)) \<in> set (dry_steps_events si i steps)"
proof (induction steps arbitrary: i j)
  case Nil
  then show ?case by simp
next
  case (Cons step rest)
  show ?case
  proof (cases j)
    case 0
    then show ?thesis by (simp add: dry_step_events_def dry_step_marker_def add.commute)
  next
    case (Suc j')
    with Cons.prems have "j' < length rest" by simp
    from Cons.IH[OF this, of "Suc i"] Suc show ?thesis by simp
  qed
qed

lemma dry_markers_in_stages_events:
  "k < length stages \<Longrightarrow>
   Wrote (dry_stage_marker (Suc (si + k)) (stages ! k)) \<in> set (dry_stages_events si stages) \<and>
   (\<forall>j < length (Steps (stages ! k)).
      Wrote (dry_step_marker (Suc (si + k)) (Suc j) (Steps (stages ! k) ! j))
        \<in> set (dry_stages_events si stages))"
proof (induction stages arbitrary: si k)
  case Nil
  then show ?case by simp
next
  case (Cons stage rest)
  show ?case
  proof (cases k)
    case 0
    then show ?thesis
      using dry_step_marker_in_steps_events[of _ "Steps stage" si 0]
      by (simp add: dry_stage_marker_def add.commute)
  next
    case (Suc k')
    with Cons.prems have "k' < length rest" by simp
    from Cons.IH[OF this, of "Suc si"] Suc show ?thesis by simp
  qed
qed

lemma Run_log_first_markers:
  assumes "fst (LoadWorkflow r (path r) (Out r (start_line (path r)) v)) = Inr flow"
    and "Stages flow = stage # rest" and "Steps stage = step # srest"
  shows "take 4 (Run_log r v) =
     [Wrote (start_line (path r)), Loaded (path r),
      Wrote (nl @ ''=== STAGE 1: '' @ Stage.Name stage @ '' ==='' @ nl),
      Wrote (''STEP 1.1: '' @ Step.Name step @ '' ('' @ Type step @ '')'' @ nl)]"
proof -
  obtain more where "Run_log r v = Wrote (start_line (path r)) # Loaded (path r) # more"
    and "\<And>flow stage srest step rest'. fst (LoadWorkflow r (path r) (Out r (start_line (path r)) v)) = Inr flow
            \<Longrightarrow> Stages flow = stage # srest \<Longrightarrow> Steps stage = step # rest'
            \<Longrightarrow> take 2 more = [Wrote (stage_marker 1 stage), Wrote (step_marker 1 1 step)]"
    by (rule Run_log_shape[of r v]) blast
  with assms have "take 4 (Run_log r v) =
      [Wrote (start_line (path r)), Loaded (path r), Wrote (stage_marker 1 stage), Wrote (step_marker 1 1 step)]"
    by (simp add: take_Cons')
  then show ?thesis
    by (simp add: stage_marker_def step_marker_def fmt_d_def digits10.simps)
qed

lemma DryRun_log_first_markers:
  assumes "fst (LoadWorkflow r (path r) (Out r (dry_start_line (path r)) v)) = Inr flow"
    and "Stages flow = stage # rest" and "Steps stage = step # srest"
  shows "take 4 (DryRun_log r v) =
     [Wrote (dry_start_line (path r)), Loaded (path r),
      Wrote (nl @ ''[DRY-RUN] === STAGE 1: '' @ Stage.Name stage @ '' ==='' @ nl),
      Wrote (''[DRY-RUN] STEP 1.1: '' @ Step.Name step @ '' ('' @ Type step @ '')'' @ nl)]"
  using assms by (simp add: DryRun_log_eq dry_step_events_def fmt_d_def digits10.simps take_Cons')

lemma Run_log_markers:
  assumes "fst (LoadWorkflow r (path r) (Out r (start_line (path r)) v)) = Inr flow"
    and "fst (Runner_Run r v) = None" and "k < length (Stages flow)" and "j < length (Steps (Stages flow ! k))"
  shows "Wrote (stage_marker (Suc k) (Stages flow ! k)) \<in> set (Run_log r v)"
    and "Wrote (step_marker (Suc k) (Suc j) (Steps (Stages flow ! k) ! j)) \<in> set (Run_log r v)"
proof -
  obtain more where "Run_log r v = Wrote (start_line (path r)) # Loaded (path r) # more"
    and "\<And>flow. fst (LoadWorkflow r (path r) (Out r (start_line (path r)) v)) = Inr flow
            \<Longrightarrow> fst (Runner_Run r v) = None \<Longrightarrow> more = stages_events 0 (Stages flow) @ [Wrote done_line]"
    by (rule Run_log_shape[of r v]) blast
  with assms(1,2) have log: "Run_log r v = Wrote (start_line (path r)) # Loaded (path r)
      # stages_events 0 (Stages flow) @ [Wrote done_line]"
    by simp
  from markers_in_stages_events[OF assms(3), of 0] assms(4)
  show "Wrote (stage_marker (Suc k) (Stages flow ! k)) \<in> set (Run_log r v)"
    and "Wrote (step_marker (Suc k) (Suc j) (Steps (Stages flow ! k) ! j)) \<in> set (Run_log r v)"
    unfolding log by simp_all
qed

lemma DryRun_log_markers:
  assumes "fst (LoadWorkflow r (path r) (Out r (dry_start_line (path r)) v)) = Inr flow"
    and "k < length (Stages flow)" and "j < length (Steps (Stages flow ! k))"
  shows "Wrote (dry_stage_marker (Suc k) (Stages flow ! k)) \<in> set (DryRun_log r v)"
    and "Wrote (dry_step_marker (Suc k) (Suc j) (Steps (Stages flow ! k) ! j)) \<in> set (DryRun_log r v)"
  using dry_markers_in_stages_events[OF assms(2), of 0] assms(1,3)
  by (simp_all add: DryRun_log_eq)


text \<open>
  C10.  Validation errors number stages and steps from zero: the stage at list position
  \<open>length pre\<close> is reported as \<open>stage <length pre> (<name>)\<close>, the first one as
  \<open>stage 0 (<name>)\<close>, and likewise \<open>step 0 (<name>)\<close> for the first step.  The
  trace markers of \<open>Run\<close> and \<open>DryRun\<close> number them from one: the first stage and step
  are announced as \<open>STAGE 1: <name>\<close> and \<open>STEP 1.1: <name>\<close>, and the stage at
  position \<open>k\<close> and its step at position \<open>j\<close> carry the numbers \<open>k + 1\<close> and
  \<open>j + 1\<close>.
\<close>

theorem validation_counts_from_zero_trace_from_one:
  "(Workflow.Name w \<noteq> [] \<and> Stages w = pre @ stage # post \<and>
    (\<forall>s \<in> set pre. Stage_Validate s = None) \<and> Stage_Validate stage = Some err
      \<longrightarrow> (\<exists>e. Workflow_Validate w = Some e \<and>
               Error e = ''stage '' @ fmt_d (int (length pre)) @ '' ('' @ Stage.Name stage @ ''): ''
                         @ Error err)) \<and>
   (Workflow.Name w \<noteq> [] \<and> Stages w = stage # post \<and> Stage_Validate stage = Some err
      \<longrightarrow> (\<exists>e. Workflow_Validate w = Some e \<and>
               Error e = ''stage 0 ('' @ Stage.Name stage @ ''): '' @ Error err)) \<and>
   (Stage.Name st \<noteq> [] \<and> Steps st = spre @ step # spost \<and>
    (\<forall>s \<in> set spre. Step_Validate s = None) \<and> Step_Validate step = Some cause
      \<longrightarrow> (\<exists>e. Stage_Validate st = Some e \<and>
               Error e = ''step '' @ fmt_d (int (length spre)) @ '' ('' @ Step.Name step @ ''): ''
                         @ Error cause)) \<and>
   (Stage.Name st \<noteq> [] \<and> Steps st = step # spost \<and> Step_Validate step = Some cause
      \<longrightarrow> (\<exists>e. Stage_Validate st = Some e \<and>
               Error e = ''step 0 ('' @ Step.Name step @ ''): '' @ Error cause)) \<and>
   (fst (LoadWorkflow r (path r) (Out r (start_line (path r)) v)) = Inr flow \<and>
    Stages flow = fstage # frest \<and> Steps fstage = fstep # fsrest
      \<longrightarrow> take 4 (Run_log r v) =
            [Wrote (start_line (path r)), Loaded (path r),
             Wrote (nl @ ''=== STAGE 1: '' @ Stage.Name fstage @ '' ==='' @ nl),
             Wrote (''STEP 1.1: '' @ Step.Name fstep @ '' ('' @ Type fstep @ '')'' @ nl)]) \<and>
   (fst (LoadWorkflow r (path r) (Out r (dry_start_line (path r)) v)) = Inr flow \<and>
    Stages flow = fstage # frest \<and> Steps fstage = fstep # fsrest
      \<longrightarrow> take 4 (DryRun_log r v) =
            [Wrote (dry_start_line (path r)), Loaded (path r),
             Wrote (nl @ ''[DRY-RUN] === STAGE 1: '' @ Stage.Name fstage @ '' ==='' @ nl),
             Wrote (''[DRY-RUN] STEP 1.1: '' @ Step.Name fstep @ '' ('' @ Type fstep @ '')'' @ nl)]) \<and>
   (fst (LoadWorkflow r (path r) (Out r (start_line (path r)) v)) = Inr flow \<and>
    fst (Runner_Run r v) = None \<and> k < length (Stages flow) \<and> j < length (Steps (Stages flow ! k))
      \<longrightarrow> Wrote (stage_marker (Suc k) (Stages flow ! k)) \<in> set (Run_log r v) \<and>
          Wrote (step_marker (Suc k) (Suc j) (Steps (Stages flow ! k) ! j)) \<in> set (Run_log r v)) \<and>
   (fst (LoadWorkflow r (path r) (Out r (dry_start_line (path r)) v)) = Inr flow \<and>
    k < length (Stages flow) \<and> j < length (Steps (Stages flow ! k))
      \<longrightarrow> Wrote (dry_stage_marker (Suc k) (Stages flow ! k)) \<in> set (DryRun_log r v) \<and>
          Wrote (dry_step_marker (Suc k) (Suc j) (Steps (Stages flow ! k) ! j)) \<in> set (DryRun_log r v))"
proof (intro conjI impI)
  show "\<exists>e. Workflow_Validate w = Some e \<and>
               Error e = ''stage '' @ fmt_d (int (length pre)) @ '' ('' @ Stage.Name stage @ ''): ''
                         @ Error err"
    if "Workflow.Name w \<noteq> [] \<and> Stages w = pre @ stage # post \<and>
        (\<forall>s \<in> set pre. Stage_Validate s = None) \<and> Stage_Validate stage = Some err"
    using that Workflow_Validate_first[of w pre stage post err] by simp
  show "\<exists>e. Workflow_Validate w = Some e \<and>
               Error e = ''stage 0 ('' @ Stage.Name stage @ ''): '' @ Error err"
    if "Workflow.Name w \<noteq> [] \<and> Stages w = stage # post \<and> Stage_Validate stage = Some err"
    using that Workflow_Validate_first[of w "[]" stage post err]
    by (simp add: fmt_d_def digits10.simps)
  show "\<exists>e. Stage_Validate st = Some e \<and>
               Error e = ''step '' @ fmt_d (int (length spre)) @ '' ('' @ Step.Name step @ ''): ''
                         @ Error cause"
    if "Stage.Name st \<noteq> [] \<and> Steps st = spre @ step # spost \<and>
        (\<forall>s \<in> set spre. Step_Validate s = None) \<and> Step_Validate step = Some cause"
    using that Stage_Validate_first[of st spre step spost cause] by simp
  show "\<exists>e. Stage_Validate st = Some e \<and>
               Error e = ''step 0 ('' @ Step.Name step @ ''): '' @ Error cause"
    if "Stage.Name st \<noteq> [] \<and> Steps st = step # spost \<and> Step_Validate step = Some cause"
    using that Stage_Validate_first[of st "[]" step spost cause]
    by (simp add: fmt_d_def digits10.simps)
  show "take 4 (Run_log r v) =
            [Wrote (start_line (path r)), Loaded (path r),
             Wrote (nl @ ''=== STAGE 1: '' @ Stage.Name fstage @ '' ==='' @ nl),
             Wrote (''STEP 1.1: '' @ Step.Name fstep @ '' ('' @ Type fstep @ '')'' @ nl)]"
    if "fst (LoadWorkflow r (path r) (Out r (start_line (path r)) v)) = Inr flow \<and>
        Stages flow = fstage # frest \<and> Steps fstage = fstep # fsrest"
    using that by (intro Run_log_first_markers[of r v flow fstage frest fstep fsrest]) simp_all
  show "take 4 (DryRun_log r v) =
            [Wrote (dry_start_line (path r)), Loaded (path r),
             Wrote (nl @ ''[DRY-RUN] === STAGE 1: '' @ Stage.Name fstage @ '' ==='' @ nl),
             Wrote (''[DRY-RUN] STEP 1.1: '' @ Step.Name fstep @ '' ('' @ Type fstep @ '')'' @ nl)]"
    if "fst (LoadWorkflow r (path r) (Out r (dry_start_line (path r)) v)) = Inr flow \<and>
        Stages flow = fstage # frest \<and> Steps fstage = fstep # fsrest"
    using that by (intro DryRun_log_first_markers[of r v flow fstage frest fstep fsrest]) simp_all
  assume h: "fst (LoadWorkflow r (path r) (Out r (start_line (path r)) v)) = Inr flow \<and>
    fst (Runner_Run r v) = None \<and> k < length (Stages flow) \<and> j < length (Steps (Stages flow ! k))"
  then show "Wrote (stage_marker (Suc k) (Stages flow ! k)) \<in> set (Run_log r v)"
    by (intro Run_log_markers(1)[of r v flow k j]) simp_all
  from h show "Wrote (step_marker (Suc k) (Suc j) (Steps (Stages flow ! k) ! j)) \<in> set (Run_log r v)"
    by (intro Run_log_markers(2)[of r v flow k j]) simp_all
next
  assume h: "fst (LoadWorkflow r (path r) (Out r (dry_start_line (path r)) v)) = Inr flow \<and>
    k < length (Stages flow) \<and> j < length (Steps (Stages flow ! k))"
  then show "Wrote (dry_stage_marker (Suc k) (Stages flow ! k)) \<in> set (DryRun_log r v)"
    by (intro DryRun_log_markers(1)[of r v flow k j]) simp_all
  from h show "Wrote (dry_step_marker (Suc k) (Suc j) (Steps (Stages flow ! k) ! j)) \<in> set (DryRun_log r v)"
    by (intro DryRun_log_markers(2)[of r v flow k j]) simp_all
qed


theorem validation_counts_from_zero_trace_from_one_witness:
  "(\<exists>e. Workflow_Validate \<lparr> Workflow.Name = ''workflow3'', Description = [],
                             Stages = [\<lparr> Stage.Name = ''stage2'', Steps = [] \<rparr>] \<rparr> = Some e \<and>
        Error e = ''stage 0 (stage2): stage must have at least one step'') \<and>
   (\<exists>e. Stage_Validate \<lparr> Stage.Name = ''stage3'',
                          Steps = [\<lparr> Step.Name = ''step2'', Type = StepTypeExec, Run = [], Seconds = 0 \<rparr>] \<rparr>
          = Some e \<and>
        Error e = ''step 0 (step2): exec step requires '' @ sq @ ''run'' @ sq @ '' command'') \<and>
   take 4 (Run_log (mock ''test-workflow.yaml'' (Inr example_workflow) (\<lambda>argv. None)) ()) =
     [Wrote (''Executing workflow: test-workflow.yaml'' @ nl), Loaded ''test-workflow.yaml'',
      Wrote (nl @ ''=== STAGE 1: build ==='' @ nl), Wrote (''STEP 1.1: compile (exec)'' @ nl)] \<and>
   take 4 (DryRun_log (mock ''test-workflow.yaml'' (Inr example_workflow) (\<lambda>argv. None)) ()) =
     [Wrote (''[DRY-RUN] Would execute workflow: test-workflow.yaml'' @ nl), Loaded ''test-workflow.yaml'',
      Wrote (nl @ ''[DRY-RUN] === STAGE 1: build ==='' @ nl),
      Wrote (''[DRY-RUN] STEP 1.1: compile (exec)'' @ nl)] \<and>
   Wrote (nl @ ''=== STAGE 2: test ==='' @ nl)
     \<in> set (Run_log (mock ''test-workflow.yaml'' (Inr example_workflow) (\<lambda>argv. None)) ()) \<and>
   Wrote (''STEP 2.1: run-tests (exec)'' @ nl)
     \<in> set (Run_log (mock ''test-workflow.yaml'' (Inr example_workflow) (\<lambda>argv. None)) ())"
proof -
  let ?S = "\<lparr> Stage.Name = ''stage2'', Steps = [] \<rparr>"
  let ?W = "\<lparr> Workflow.Name = ''workflow3'', Description = [], Stages = [?S] \<rparr>"
  let ?err = "New ''stage must have at least one step''"
  let ?step = "\<lparr> Step.Name = ''step2'', Type = StepTypeExec, Run = [], Seconds = 0 \<rparr>"
  let ?st = "\<lparr> Stage.Name = ''stage3'', Steps = [?step] \<rparr>"
  let ?cause = "New (''exec step requires '' @ sq @ ''run'' @ sq @ '' command'')"
  let ?r = "mock ''test-workflow.yaml'' (Inr example_workflow) (\<lambda>argv. None)"
  let ?compile = "\<lparr> Step.Name = ''compile'', Type = StepTypeExec, Run = [''go'', ''build''], Seconds = 0 \<rparr>"
  let ?wait = "\<lparr> Step.Name = ''wait'', Type = StepTypeSleep, Run = [], Seconds = 2 \<rparr>"
  let ?build = "\<lparr> Stage.Name = ''build'', Steps = [?compile, ?wait] \<rparr>"
  let ?test = "\<lparr> Stage.Name = ''test'',
            Steps = [\<lparr> Step.Name = ''run-tests'', Type = StepTypeExec, Run = [''go'', ''test''], Seconds = 0 \<rparr>] \<rparr>"
  note t = validation_counts_from_zero_trace_from_one
    [where w = ?W and stage = ?S and post = "[]" and err = ?err
       and st = ?st and step = ?step and spost = "[]" and cause = ?cause
       and r = ?r and v = "()" and flow = example_workflow
       and fstage = ?build and frest = "[?test]" and fstep = ?compile and fsrest = "[?wait]"
       and k = 1 and j = 0]
  have h2: "Workflow.Name ?W \<noteq> [] \<and> Stages ?W = ?S # [] \<and> Stage_Validate ?S = Some ?err"
    by (simp add: Stage_Validate_def)
  have h4: "Stage.Name ?st \<noteq> [] \<and> Steps ?st = ?step # [] \<and> Step_Validate ?step = Some ?cause"
    by (simp add: Step_Validate_def)
  have p: "path ?r = ''test-workflow.yaml''"
    by (simp add: mock_def)
  have h5: "fst (LoadWorkflow ?r (path ?r) (Out ?r (start_line (path ?r)) ())) = Inr example_workflow \<and>
      Stages example_workflow = ?build # [?test] \<and> Steps ?build = ?compile # [?wait]"
    by (simp add: mock_def example_workflow_def)
  have h6: "fst (LoadWorkflow ?r (path ?r) (Out ?r (dry_start_line (path ?r)) ())) = Inr example_workflow \<and>
      Stages example_workflow = ?build # [?test] \<and> Steps ?build = ?compile # [?wait]"
    by (simp add: mock_def example_workflow_def)
  have "\<forall>argv v. fst (RunCmd ?r argv v) = None"
    by (simp add: mock_def)
  moreover have "Workflow_Validate example_workflow = None"
    by (simp add: example_workflow_def eval_simps)
  ultimately have ok: "fst (Runner_Run ?r ()) = None"
    using h5 by (intro Runner_Run_ok[of ?r "()" example_workflow]) simp_all
  have h7: "fst (LoadWorkflow ?r (path ?r) (Out ?r (start_line (path ?r)) ())) = Inr example_workflow \<and>
      fst (Runner_Run ?r ()) = None \<and> 1 < length (Stages example_workflow) \<and>
      0 < length (Steps (Stages example_workflow ! 1))"
    using h5 ok by (simp add: example_workflow_def)
  have c2: "\<exists>e. Workflow_Validate ?W = Some e \<and>
        Error e = ''stage 0 (stage2): stage must have at least one step''"
    using t[THEN conjunct2, THEN conjunct1] h2 by simp
  have c4: "\<exists>e. Stage_Validate ?st = Some e \<and>
        Error e = ''step 0 (step2): exec step requires '' @ sq @ ''run'' @ sq @ '' command''"
    using t[THEN conjunct2, THEN conjunct2, THEN conjunct2, THEN conjunct1] h4 by simp
  have c5: "take 4 (Run_log ?r ()) =
     [Wrote (''Executing workflow: test-workflow.yaml'' @ nl), Loaded ''test-workflow.yaml'',
      Wrote (nl @ ''=== STAGE 1: build ==='' @ nl), Wrote (''STEP 1.1: compile (exec)'' @ nl)]"
    using t[THEN conjunct2, THEN conjunct2, THEN conjunct2, THEN conjunct2, THEN conjunct1] h5
    unfolding p by (simp add: start_line_def StepTypeExec_def)
  have c6: "take 4 (DryRun_log ?r ()) =
     [Wrote (''[DRY-RUN] Would execute workflow: test-workflow.yaml'' @ nl), Loaded ''test-workflow.yaml'',
      Wrote (nl @ ''[DRY-RUN] === STAGE 1: build ==='' @ nl),
      Wrote (''[DRY-RUN] STEP 1.1: compile (exec)'' @ nl)]"
    using t[THEN conjunct2, THEN conjunct2, THEN conjunct2, THEN conjunct2, THEN conjunct2,
        THEN conjunct1] h6
    unfolding p by (simp add: dry_start_line_def StepTypeExec_def)
  have m: "stage_marker (Suc 1) (Stages example_workflow ! 1) = nl @ ''=== STAGE 2: test ==='' @ nl"
    "step_marker (Suc 1) (Suc 0) (Steps (Stages example_workflow ! 1) ! 0) = ''STEP 2.1: run-tests (exec)'' @ nl"
    by (simp_all add: example_workflow_def stage_marker_def step_marker_def eval_simps)
  have c7: "Wrote (nl @ ''=== STAGE 2: test ==='' @ nl) \<in> set (Run_log ?r ()) \<and>
      Wrote (''STEP 2.1: run-tests (exec)'' @ nl) \<in> set (Run_log ?r ())"
    using t[THEN conjunct2, THEN conjunct2, THEN conjunct2, THEN conjunct2, THEN conjunct2,
        THEN conjunct2, THEN conjunct1] h7
    unfolding m by blast
  from c2 c4 c5 c6 c7 show ?thesis by blast
qed

end
